theory Spec2Isabelle
  imports Main
begin

section \<open>Values of the host language\<close>

text \<open>
  A \<open>float64\<close> is modelled by its exact value: \<open>Finite s m e\<close> is
  \<open>(-1)^s * m * 2^e\<close> (so negative zero is \<open>Finite True 0 0\<close>), next to the two
  infinities and NaN.  Every float64 is such a value; the range and precision limits of
  the format are not needed by the encoder, which only tests for NaN and prints.
\<close>

datatype float64 = Finite bool nat int | Inf bool | NaN

fun IsNaN :: "float64 \<Rightarrow> bool" where
  "IsNaN NaN = True"
| "IsNaN _ = False"

text \<open>
  An error value made by \<open>fmt.Errorf\<close>, carrying its message; \<open>Panic\<close> stands for a
  run-time panic that leaves the function instead of a result.
\<close>

datatype error = Errorf string | Panic string

subsection \<open>The fragment of \<open>fmt.Sprintf\<close> the encoder relies on\<close>

text \<open>
  \<open>fmt.Sprintf\<close> is the standard library's.  The model covers format strings made of
  literal text, \<open>%%\<close> and the verbs \<open>%f\<close> and \<open>%.Nf\<close>, applied to float64 operands: the
  fragment the default formats \<open>%.2f\<close> live in.  A verb without an operand prints
  \<open>%!f(MISSING)\<close>, a format ending in its percent sign \<open>%!(NOVERB)\<close>.  \<open>doPrintf\<close>
  answers \<open>None\<close> for every other format (flags, widths, a precision above \<open>10^6\<close>,
  other verbs, operands left over), and \<open>Sprintf\<close> is left unspecified there.
\<close>

function show_nat :: "nat \<Rightarrow> string" where
  "show_nat n =
     (if n < 10 then [''0123456789'' ! n]
      else show_nat (n div 10) @ [''0123456789'' ! (n mod 10)])"
  by pat_completeness auto
termination
  by (relation "measure id") auto

declare show_nat.simps [simp del]

text \<open>
  The decimal digits of \<open>m * 2^e\<close> rounded to \<open>prec\<close> places, ties to even, as
  \<open>strconv\<close> rounds the exact decimal expansion: the result is the integer
  \<open>round (m * 2^e * 10^prec)\<close>.
\<close>

definition round_scaled :: "nat \<Rightarrow> nat \<Rightarrow> int \<Rightarrow> nat" where
  "round_scaled prec m e =
     (if 0 \<le> e then m * 10 ^ prec * 2 ^ nat e
      else
        (let d = 2 ^ nat (- e); n = m * 10 ^ prec; q = n div d; r = n mod d
         in if d < 2 * r \<or> (2 * r = d \<and> odd q) then q + 1 else q))"

definition fixed_digits :: "nat \<Rightarrow> nat \<Rightarrow> string" where
  "fixed_digits prec q =
     show_nat (q div 10 ^ prec) @
     (if prec = 0 then []
      else
        (let ds = show_nat (q mod 10 ^ prec)
         in CHR ''.'' # replicate (prec - length ds) CHR ''0'' @ ds))"

fun fmtFloat :: "nat \<Rightarrow> float64 \<Rightarrow> string" where
  "fmtFloat prec NaN = ''NaN''"
| "fmtFloat prec (Inf neg) = (if neg then ''-Inf'' else ''+Inf'')"
| "fmtFloat prec (Finite neg m e) =
     (if neg then ''-'' else []) @ fixed_digits prec (round_scaled prec m e)"

datatype pstate = Lit | Pct | Prec nat

definition is_digit :: "char \<Rightarrow> bool" where
  "is_digit c = (c \<in> set ''0123456789'')"

definition digit_val :: "char \<Rightarrow> nat" where
  "digit_val c = of_char c - 48"

fun doPrintf :: "pstate \<Rightarrow> string \<Rightarrow> float64 list \<Rightarrow> string option"
  and verb_f :: "nat \<Rightarrow> string \<Rightarrow> float64 list \<Rightarrow> string option" where
  "doPrintf Lit [] args = (if args = [] then Some [] else None)"
| "doPrintf Lit (c # fs) args =
     (if c = CHR ''%'' then doPrintf Pct fs args
      else map_option ((#) c) (doPrintf Lit fs args))"
| "doPrintf Pct [] args = (if args = [] then Some ''%!(NOVERB)'' else None)"
| "doPrintf Pct (c # fs) args =
     (if c = CHR ''%'' then map_option ((#) c) (doPrintf Lit fs args)
      else if c = CHR ''f'' then verb_f 6 fs args
      else if c = CHR ''.'' then doPrintf (Prec 0) fs args
      else None)"
| "doPrintf (Prec p) [] args = (if args = [] then Some ''%!(NOVERB)'' else None)"
| "doPrintf (Prec p) (c # fs) args =
     (if is_digit c then
        (if 10 * p + digit_val c \<le> 1000000 then doPrintf (Prec (10 * p + digit_val c)) fs args
         else None)
      else if c = CHR ''f'' then verb_f p fs args
      else None)"
| "verb_f p fs [] = map_option ((@) ''%!f(MISSING)'') (doPrintf Lit fs [])"
| "verb_f p fs (a # args) = map_option ((@) (fmtFloat p a)) (doPrintf Lit fs args)"

definition Sprintf :: "string \<Rightarrow> float64 list \<Rightarrow> string" where
  "Sprintf format args =
     (case doPrintf Lit format args of Some s \<Rightarrow> s | None \<Rightarrow> undefined format args)"

section \<open>The numeric-series encoder\<close>

text \<open>
  The \<open>Values\<close> interface, as what its three methods return.
\<close>

record Values =
  Xs :: "float64 list"
  Ys :: "float64 list"
  Rs :: "float64 list"

text \<open>
  The three loops of \<open>marshalValuesJSON\<close>, each over \<open>xs\<close> with its index \<open>i\<close> and the
  buffer written so far.  The length checks that guard the loops keep \<open>ys ! i\<close> and
  \<open>rs ! i\<close> in range.
\<close>

fun loopXYR :: "string \<Rightarrow> string \<Rightarrow> float64 list \<Rightarrow> float64 list \<Rightarrow> nat \<Rightarrow> float64 list \<Rightarrow> string \<Rightarrow> string" where
  "loopXYR xformat yformat ys rs i [] buf = buf"
| "loopXYR xformat yformat ys rs i (x # xs) buf =
     loopXYR xformat yformat ys rs (Suc i) xs
       ((if 0 < i then buf @ '','' else buf) @
        (let y = ys ! i; r = rs ! i
         in if IsNaN y
            then Sprintf (''{\"x\":'' @ xformat @ '',\"y\": null,\"r\":'' @ yformat @ ''}'') [x, r]
            else Sprintf (''{\"x\":'' @ xformat @ '',\"y\":'' @ yformat @ '',\"r\":'' @ yformat @ ''}'')
                   [x, y, r]))"

fun loopXY :: "string \<Rightarrow> string \<Rightarrow> float64 list \<Rightarrow> nat \<Rightarrow> float64 list \<Rightarrow> string \<Rightarrow> string" where
  "loopXY xformat yformat ys i [] buf = buf"
| "loopXY xformat yformat ys i (x # xs) buf =
     loopXY xformat yformat ys (Suc i) xs
       ((if 0 < i then buf @ '','' else buf) @
        (let y = ys ! i
         in if IsNaN y
            then Sprintf (''{\"x\":'' @ xformat @ '',\"y\": null }'') [x]
            else Sprintf (''{\"x\":'' @ xformat @ '',\"y\":'' @ yformat @ ''}'') [x, y]))"

fun loopX :: "string \<Rightarrow> nat \<Rightarrow> float64 list \<Rightarrow> string \<Rightarrow> string" where
  "loopX xformat i [] buf = buf"
| "loopX xformat i (x # xs) buf =
     loopX xformat (Suc i) xs ((if 0 < i then buf @ '','' else buf) @ Sprintf xformat [x])"

definition marshalValuesJSON :: "Values \<Rightarrow> string \<Rightarrow> string \<Rightarrow> error + string" where
  "marshalValuesJSON v xformat yformat =
     (let xs = Xs v; ys = Ys v; rs = Rs v
      in if length xs = 0 \<and> length rs \<noteq> 0
         then Inl (Errorf ''chart: bad format of Values data'')
         else
           (let (xs, ys) = (if length xs = 0 then (ys, []) else (xs, ys));
                buf = ''[''
            in if 0 < length rs then
                 (if length xs \<noteq> length ys \<or> length xs \<noteq> length rs
                  then Inl (Errorf ''chart: bad format of Values. All axes must be of the same length'')
                  else Inr (loopXYR xformat yformat ys rs 0 xs buf @ '']''))
               else if 0 < length ys then
                 (if length xs \<noteq> length ys
                  then Inl (Errorf ''chart: bad format of Values. X and Y must be of the same length'')
                  else Inr (loopXY xformat yformat ys 0 xs buf @ '']''))
               else Inr (loopX xformat 0 xs buf @ '']'')))"

text \<open>
  The encoder's three errors, under the names the specification gives their kinds: it
  calls both length errors \<open>ShapeMismatch\<close>.
\<close>

definition InvalidShape :: error where
  "InvalidShape = Errorf ''chart: bad format of Values data''"

definition ShapeMismatchXYR :: error where
  "ShapeMismatchXYR =
     Errorf ''chart: bad format of Values. All axes must be of the same length''"

definition ShapeMismatchXY :: error where
  "ShapeMismatchXY =
     Errorf ''chart: bad format of Values. X and Y must be of the same length''"

definition ShapeMismatch :: "error \<Rightarrow> bool" where
  "ShapeMismatch e = (e = ShapeMismatchXYR \<or> e = ShapeMismatchXY)"

subsection \<open>The shapes of the output\<close>

text \<open>
  The texts the three loops are meant to build, used to state what they do: the items
  separated by commas, between brackets; and the text of one point of each object
  shape, as the loop bodies format it.
\<close>

fun join_comma :: "string list \<Rightarrow> string" where
  "join_comma [] = []"
| "join_comma [s] = s"
| "join_comma (s # t # ss) = s @ '','' @ join_comma (t # ss)"

definition array_text :: "string list \<Rightarrow> string" where
  "array_text items = ''['' @ join_comma items @ '']''"

definition pointXY :: "string \<Rightarrow> string \<Rightarrow> float64 \<Rightarrow> float64 \<Rightarrow> string" where
  "pointXY xformat yformat x y =
     (if IsNaN y
      then Sprintf (''{\"x\":'' @ xformat @ '',\"y\": null }'') [x]
      else Sprintf (''{\"x\":'' @ xformat @ '',\"y\":'' @ yformat @ ''}'') [x, y])"

definition pointXYR :: "string \<Rightarrow> string \<Rightarrow> float64 \<Rightarrow> float64 \<Rightarrow> float64 \<Rightarrow> string" where
  "pointXYR xformat yformat x y r =
     (if IsNaN y
      then Sprintf (''{\"x\":'' @ xformat @ '',\"y\": null,\"r\":'' @ yformat @ ''}'') [x, r]
      else Sprintf (''{\"x\":'' @ xformat @ '',\"y\":'' @ yformat @ '',\"r\":'' @ yformat @ ''}'')
             [x, y, r])"

section \<open>The chart document\<close>

text \<open>
  The enumerations are integer types in the source, with named constants; any integer
  is a value of the type.  Ordinal zero of \<open>axisPosition\<close> is "unspecified".
\<close>

type_synonym chartType = int
type_synonym interpMode = int
type_synonym shape = int
type_synonym axisType = int
type_synonym axisPosition = int

definition Line :: chartType where "Line = 0"
definition Bar :: chartType where "Bar = 1"
definition Bubble :: chartType where "Bubble = 2"

definition Category :: axisType where "Category = 0"
definition Linear :: axisType where "Linear = 1"
definition Log :: axisType where "Log = 2"
definition Time :: axisType where "Time = 3"
definition Radial :: axisType where "Radial = 4"

definition Bottom :: axisPosition where "Bottom = 1"
definition Top :: axisPosition where "Top = 2"
definition Left :: axisPosition where "Left = 3"
definition Right :: axisPosition where "Right = 4"

text \<open>
  Modelled from the spec: the package \<open>types\<close> is not among the sources.  Its \<open>Bool\<close>
  is the tri-state boolean (unset, true or false), which "differentiates between false
  and empty by use of pointer" (the comment on \<open>Axis.Display\<close>): a pointer to a bool.
  \<open>RGBA\<close> is only ever held by pointer and never inspected here, and is left abstract.
\<close>

type_synonym Bool = "bool option"
typedecl RGBA

text \<open>
  A value of type \<open>interface{}\<close>, as what the two type assertions of the dataset
  encoder see of it: \<open>as_Marshaler\<close> is \<open>None\<close> when the dynamic type has no
  \<open>MarshalJSON\<close> method and otherwise what calling it returns; \<open>as_Values\<close> is \<open>None\<close>
  when the dynamic type does not implement \<open>Values\<close>.  The nil interface has neither.
\<close>

record iface =
  as_Marshaler :: "(error + string) option"
  as_Values :: "Values option"

text \<open>The two package-level variables holding the default formats.\<close>

record package_vars =
  XFloatFormat :: string
  YFloatFormat :: string

definition initial_vars :: package_vars where
  "initial_vars = \<lparr>XFloatFormat = ''%.2f'', YFloatFormat = ''%.2f''\<rparr>"

record Dataset =
  Data :: iface
  Type :: chartType
  BackgroundColor :: "RGBA option"
  BorderColor :: "RGBA option"
  BorderWidth :: float64
  Label :: string
  Fill :: Bool
  SteppedLine :: Bool
  LineTension :: float64
  CubicInterpolationMode :: interpMode
  PointBackgroundColor :: "RGBA option"
  PointBorderColor :: "RGBA option"
  PointBorderWidth :: float64
  PointRadius :: float64
  PointHitRadius :: float64
  PointHoverRadius :: float64
  PointHoverBorderColor :: "RGBA option"
  PointHoverBorderWidth :: float64
  PointStyle :: shape
  ShowLine :: Bool
  SpanGaps :: Bool
  XAxisID :: string
  YAxisID :: string
  XFloatFormat :: string
  YFloatFormat :: string

record Data =
  Datasets :: "Dataset list"
  Labels :: "string list"

record AxisTitle =
  Display :: bool
  Text :: string

record Tick =
  Tick_Min :: float64
  Tick_Max :: float64
  BeginAtZero :: Bool

record ScaleLabel =
  Display :: Bool
  LabelString :: string
  FontColor :: "RGBA option"
  FontFamily :: string
  FontSize :: int
  FontStyle :: string

record Axis =
  Type :: axisType
  Position :: axisPosition
  Label :: string
  ID :: string
  GridLines :: Bool
  Stacked :: Bool
  Display :: Bool
  ScaleLabel :: "ScaleLabel option"
  Tick :: "Tick option"
  Title :: AxisTitle

record Title =
  Display :: Bool
  Text :: string

record Option =
  Responsive :: Bool
  MaintainAspectRatio :: Bool
  Title :: "Title option"

record Animation =
  Duration :: int

record Tooltip =
  Enabled :: Bool
  Intersect :: Bool
  Mode :: string
  Custom :: string

record Legend =
  Display :: Bool

text \<open>
  A map of the host language is \<open>None\<close> while nil.  \<open>Options\<close> embeds \<open>Option\<close>.
\<close>

record Options =
  Option :: Option
  Scales :: "(string \<rightharpoonup> Axis) option"
  Legend :: "Legend option"
  Tooltip :: "Tooltip option"
  Animation :: Animation
  Plugins :: "(string \<rightharpoonup> (string \<rightharpoonup> string)) option"

record Chart =
  Type :: chartType
  Label :: string
  Data :: Data
  Options :: Options

section \<open>The dataset encoder\<close>

text \<open>
  The type switch of \<open>Dataset.MarshalJSON\<close> on the payload: \<open>json.Marshaler\<close> first,
  \<open>Values\<close> second; with neither, \<open>o\<close> stays nil and \<open>err\<close> stays nil.
\<close>

definition payloadJSON :: "iface \<Rightarrow> string \<Rightarrow> string \<Rightarrow> error + string" where
  "payloadJSON p xf yf =
     (case as_Marshaler p of
        Some r \<Rightarrow> r
      | None \<Rightarrow>
          (case as_Values p of
             Some v \<Rightarrow> marshalValuesJSON v xf yf
           | None \<Rightarrow> Inr []))"

subsection \<open>The enumerations' own encodings\<close>

definition quote :: "string \<Rightarrow> string" where
  "quote s = CHR 0x22 # s @ [CHR 0x22]"

text \<open>
  Each enumeration encodes itself as the entry of its table at its ordinal, between
  quotes; an ordinal outside the table is an index out of range, which panics.
\<close>

definition table_lookup :: "string list \<Rightarrow> int \<Rightarrow> error + string" where
  "table_lookup tab i =
     (if 0 \<le> i \<and> i < int (length tab) then Inr (quote (tab ! nat i))
      else Inl (Panic ''runtime error: index out of range''))"

definition chartTypes :: "string list" where
  "chartTypes = [''line'', ''bar'', ''bubble'']"

definition interpModes :: "string list" where
  "interpModes = [[], ''monotone'', ''default'']"

definition shapes :: "string list" where
  "shapes = [[], ''circle'', ''triangle'', ''rect'', ''rectRot'', ''cross'', ''crossRot'',
             ''star'', ''line'', ''dash'']"

definition axisTypes :: "string list" where
  "axisTypes = [''category'', ''linear'', ''logarithmic'', ''time'', ''radialLinear'']"

definition axisPositions :: "string list" where
  "axisPositions = [[], ''bottom'', ''top'', ''left'', ''right'']"

definition chartType_MarshalJSON :: "chartType \<Rightarrow> error + string" where
  "chartType_MarshalJSON c = table_lookup chartTypes c"

definition interpMode_MarshalJSON :: "interpMode \<Rightarrow> error + string" where
  "interpMode_MarshalJSON m = table_lookup interpModes m"

definition shape_MarshalJSON :: "shape \<Rightarrow> error + string" where
  "shape_MarshalJSON s = table_lookup shapes s"

definition axisType_MarshalJSON :: "axisType \<Rightarrow> error + string" where
  "axisType_MarshalJSON t = table_lookup axisTypes t"

definition axisPosition_MarshalJSON :: "axisPosition \<Rightarrow> error + string" where
  "axisPosition_MarshalJSON p = table_lookup axisPositions p"

subsection \<open>The struct encoding of the styling fields\<close>

text \<open>
  \<open>json.Marshal\<close> is the standard library's encoder, applied to the alias of the
  dataset (the struct without its \<open>MarshalJSON\<close> method).  It walks the fields in the
  order of their declaration; the field tags give the key of each, leave out the
  fields tagged \<open>-\<close> and, under \<open>omitempty\<close>, a zero number, an empty string or a nil
  pointer; the first field that fails ends the encoding with its error.  How the
  library prints a float64 and a string, and how the missing package \<open>types\<close> prints an
  \<open>RGBA\<close>, are parameters of the model.
\<close>

record encoders =
  floatEncoder :: "float64 \<Rightarrow> error + string"
  stringEncoder :: "string \<Rightarrow> string"
  rgbaEncoder :: "RGBA \<Rightarrow> error + string"

text \<open>A field as the encoder meets it: its key and, unless it is left out, its value's encoding.\<close>

type_synonym field = "string \<times> (error + string) option"

definition omitempty :: "bool \<Rightarrow> error + string \<Rightarrow> (error + string) option" where
  "omitempty is_empty enc = (if is_empty then None else Some enc)"

definition rgba_field :: "encoders \<Rightarrow> RGBA option \<Rightarrow> (error + string) option" where
  "rgba_field L p = (case p of None \<Rightarrow> None | Some c \<Rightarrow> Some (rgbaEncoder L c))"

text \<open>
  Modelled from the spec: a tri-state boolean serialises to nothing when unset (the
  field is left out), and to \<open>true\<close> or \<open>false\<close> otherwise.
\<close>

definition bool_field :: "Bool \<Rightarrow> (error + string) option" where
  "bool_field p =
     (case p of None \<Rightarrow> None | Some b \<Rightarrow> Some (Inr (if b then ''true'' else ''false'')))"

definition string_field :: "encoders \<Rightarrow> string \<Rightarrow> (error + string) option" where
  "string_field L s = omitempty (s = []) (Inr (stringEncoder L s))"

fun struct_members :: "field list \<Rightarrow> error + string list" where
  "struct_members [] = Inr []"
| "struct_members ((k, None) # fs) = struct_members fs"
| "struct_members ((k, Some (Inl e)) # fs) = Inl e"
| "struct_members ((k, Some (Inr v)) # fs) =
     (case struct_members fs of
        Inl e \<Rightarrow> Inl e
      | Inr ms \<Rightarrow> Inr ((quote k @ '':'' @ v) # ms))"

definition struct_JSON :: "field list \<Rightarrow> error + string" where
  "struct_JSON fs =
     (case struct_members fs of
        Inl e \<Rightarrow> Inl e
      | Inr ms \<Rightarrow> Inr (''{'' @ join_comma ms @ ''}''))"

definition Dataset_fields :: "encoders \<Rightarrow> Dataset \<Rightarrow> field list" where
  "Dataset_fields L d =
     [(''type'', omitempty (Dataset.Type d = 0) (chartType_MarshalJSON (Dataset.Type d))),
      (''backgroundColor'', rgba_field L (BackgroundColor d)),
      (''borderColor'', rgba_field L (BorderColor d)),
      (''borderWidth'', Some (floatEncoder L (BorderWidth d))),
      (''label'', string_field L (Dataset.Label d)),
      (''fill'', bool_field (Fill d)),
      (''steppedLine'', bool_field (SteppedLine d)),
      (''lineTension'', Some (floatEncoder L (LineTension d))),
      (''cubicInterpolationMode'',
         omitempty (CubicInterpolationMode d = 0)
           (interpMode_MarshalJSON (CubicInterpolationMode d))),
      (''pointBackgroundColor'', rgba_field L (PointBackgroundColor d)),
      (''pointBorderColor'', rgba_field L (PointBorderColor d)),
      (''pointBorderWidth'', Some (floatEncoder L (PointBorderWidth d))),
      (''pointRadius'', Some (floatEncoder L (PointRadius d))),
      (''pointHitRadius'', Some (floatEncoder L (PointHitRadius d))),
      (''pointHoverRadius'', Some (floatEncoder L (PointHoverRadius d))),
      (''pointHoverBorderColor'', rgba_field L (PointHoverBorderColor d)),
      (''pointHoverBorderWidth'', Some (floatEncoder L (PointHoverBorderWidth d))),
      (''pointStyle'', omitempty (PointStyle d = 0) (shape_MarshalJSON (PointStyle d))),
      (''showLine'', bool_field (ShowLine d)),
      (''spanGaps'', bool_field (SpanGaps d)),
      (''xAxisID'', string_field L (XAxisID d)),
      (''yAxisID'', string_field L (YAxisID d))]"

definition json_Marshal_alias :: "encoders \<Rightarrow> Dataset \<Rightarrow> error + string" where
  "json_Marshal_alias L d = struct_JSON (Dataset_fields L d)"

text \<open>
  The leaves of a dataset's styling: the values the parameters are applied to.
\<close>

definition float_leaves :: "Dataset \<Rightarrow> float64 list" where
  "float_leaves d =
     [BorderWidth d, LineTension d, PointBorderWidth d, PointRadius d, PointHitRadius d,
      PointHoverRadius d, PointHoverBorderWidth d]"

definition string_leaves :: "Dataset \<Rightarrow> string list" where
  "string_leaves d = filter (\<lambda>s. s \<noteq> []) [Dataset.Label d, XAxisID d, YAxisID d]"

definition rgba_leaves :: "Dataset \<Rightarrow> RGBA list" where
  "rgba_leaves d =
     List.map_filter id
       [BackgroundColor d, BorderColor d, PointBackgroundColor d, PointBorderColor d,
        PointHoverBorderColor d]"

text \<open>
  An instance of the parameters that agrees with \<open>encoding/json\<close> where it says
  anything: a float64 that is NaN or infinite is refused, one that is an integer below
  \<open>2^53\<close> in magnitude is printed as its digits; a string of printable ASCII without
  quote, backslash and the characters escaped for HTML is printed between quotes.
  Everything else is left unspecified.
\<close>

definition go_floatEncoder :: "float64 \<Rightarrow> error + string" where
  "go_floatEncoder x =
     (case x of
        NaN \<Rightarrow> Inl (Errorf ''json: unsupported value: NaN'')
      | Inf neg \<Rightarrow> Inl (Errorf (if neg then ''json: unsupported value: -Inf''
                                else ''json: unsupported value: +Inf''))
      | Finite neg m e \<Rightarrow>
          if 0 \<le> e \<and> m * 2 ^ nat e < 2 ^ 53
          then Inr ((if neg then ''-'' else []) @ show_nat (m * 2 ^ nat e))
          else undefined x)"

definition plain_ascii :: "char \<Rightarrow> bool" where
  "plain_ascii c =
     (32 \<le> (of_char c :: nat) \<and> (of_char c :: nat) < 127 \<and>
      c \<notin> set [CHR 0x22, CHR 0x5C, CHR ''<'', CHR ''>'', CHR ''&''])"

definition go_stringEncoder :: "string \<Rightarrow> string" where
  "go_stringEncoder s = (if list_all plain_ascii s then quote s else undefined s)"

definition go_encoders :: encoders where
  "go_encoders =
     \<lparr>floatEncoder = go_floatEncoder, stringEncoder = go_stringEncoder,
      rgbaEncoder = (\<lambda>c. undefined c)\<rparr>"

subsection \<open>The splice\<close>

text \<open>
  The last byte of the styling encoding is overwritten by a comma, then the key, the
  payload and a closing brace are appended.
\<close>

definition splice :: "string \<Rightarrow> string \<Rightarrow> string" where
  "splice buf o_bytes =
     (if 0 < length buf then butlast buf @ '','' else buf) @ ''\"data\":'' @ o_bytes @ ''}''"

definition float_formats :: "package_vars \<Rightarrow> Dataset \<Rightarrow> string \<times> string" where
  "float_formats g d =
     (if Dataset.XFloatFormat d = [] then package_vars.XFloatFormat g
      else Dataset.XFloatFormat d,
      if Dataset.YFloatFormat d = [] then package_vars.YFloatFormat g
      else Dataset.YFloatFormat d)"

definition Dataset_MarshalJSON :: "encoders \<Rightarrow> package_vars \<Rightarrow> Dataset \<Rightarrow> error + string" where
  "Dataset_MarshalJSON L g d =
     (let (xf, yf) = float_formats g d
      in case payloadJSON (Dataset.Data d) xf yf of
           Inl err \<Rightarrow> Inl err
         | Inr o_bytes \<Rightarrow>
             (case json_Marshal_alias L d of
                Inl err \<Rightarrow> Inl err
              | Inr buf \<Rightarrow> Inr (splice buf o_bytes)))"

text \<open>The zero value of a dataset, and the nil interface.\<close>

definition nil_iface :: iface where
  "nil_iface = \<lparr>as_Marshaler = None, as_Values = None\<rparr>"

definition zero :: float64 where
  "zero = Finite False 0 0"

definition zero_Dataset :: Dataset where
  "zero_Dataset =
     \<lparr>Dataset.Data = nil_iface, Dataset.Type = 0, BackgroundColor = None, BorderColor = None,
      BorderWidth = zero, Dataset.Label = [], Fill = None, SteppedLine = None,
      LineTension = zero, CubicInterpolationMode = 0, PointBackgroundColor = None,
      PointBorderColor = None, PointBorderWidth = zero, PointRadius = zero,
      PointHitRadius = zero, PointHoverRadius = zero, PointHoverBorderColor = None,
      PointHoverBorderWidth = zero, PointStyle = 0, ShowLine = None, SpanGaps = None,
      XAxisID = [], YAxisID = [], Dataset.XFloatFormat = [], Dataset.YFloatFormat = []\<rparr>"

section \<open>The chart builder\<close>

text \<open>
  The builder methods have a pointer receiver: each returns the chart as it leaves it.
\<close>

definition AddDataset :: "Chart \<Rightarrow> Dataset \<Rightarrow> Chart" where
  "AddDataset c d =
     c\<lparr>Chart.Data := (Chart.Data c)\<lparr>Datasets := Datasets (Chart.Data c) @ [d]\<rparr>\<rparr>"

definition AddAxis :: "Chart \<Rightarrow> Axis \<Rightarrow> Chart" where
  "AddAxis c axis =
     (let scales = (case Scales (Options c) of None \<Rightarrow> Map.empty | Some m \<Rightarrow> m)
      in c\<lparr>Options := (Options c)\<lparr>Scales := Some (scales(ID axis \<mapsto> axis))\<rparr>\<rparr>)"

definition AddXAxis :: "Chart \<Rightarrow> Axis \<Rightarrow> (error + string) \<times> Chart" where
  "AddXAxis c x0 =
     (let x = (if ID x0 = [] then x0\<lparr>ID := ''x''\<rparr> else x0)
      in if Position x = Left \<or> Position x = Right
         then (Inl (Errorf ''chart: added x-axis to left or right''), c)
         else (Inr (ID x), AddAxis c x))"

definition AddYAxis :: "Chart \<Rightarrow> Axis \<Rightarrow> (error + string) \<times> Chart" where
  "AddYAxis c y0 =
     (let y = (if ID y0 = [] then y0\<lparr>ID := ''y''\<rparr> else y0)
      in if Position y = Top \<or> Position y = Bottom
         then (Inl (Errorf ''chart: added y-axis to top or bottom''), c)
         else (Inr (ID y), AddAxis c y))"

text \<open>The zero values of an axis and of a chart.\<close>

definition zero_Axis :: Axis where
  "zero_Axis =
     \<lparr>Axis.Type = 0, Position = 0, Axis.Label = [], ID = [], GridLines = None, Stacked = None,
      Axis.Display = None, ScaleLabel = None, Tick = None,
      Axis.Title = \<lparr>AxisTitle.Display = False, AxisTitle.Text = []\<rparr>\<rparr>"

definition zero_Chart :: Chart where
  "zero_Chart =
     \<lparr>Chart.Type = 0, Chart.Label = [],
      Chart.Data = \<lparr>Datasets = [], Labels = []\<rparr>,
      Options =
        \<lparr>Option = \<lparr>Responsive = None, MaintainAspectRatio = None, Option.Title = None\<rparr>,
         Scales = None, Legend = None, Tooltip = None,
         Animation = \<lparr>Duration = 0\<rparr>, Plugins = None\<rparr>\<rparr>"

section \<open>JSON texts\<close>

text \<open>
  What "valid JSON" means, after RFC 8259: numbers and string bodies are recognised by
  two small automata, values by the grammar below.  The grammar also gives the parts of
  a text: the element texts of an array and the (key, value text) pairs of an object, in
  order.
\<close>

definition is_ws :: "char \<Rightarrow> bool" where
  "is_ws c = (c = CHR '' '' \<or> c = CHR 0x09 \<or> c = CHR 0x0A \<or> c = CHR 0x0D)"

definition ws :: "string \<Rightarrow> bool" where
  "ws w = list_all is_ws w"

datatype nstate = NStart | NMinus | NZero | NInt | NDot | NFrac | NE | NESign | NExp

definition is_e :: "char \<Rightarrow> bool" where
  "is_e c = (c = CHR ''e'' \<or> c = CHR ''E'')"

fun num_step :: "nstate \<Rightarrow> char \<Rightarrow> nstate option" where
  "num_step NStart c =
     (if c = CHR ''-'' then Some NMinus else if c = CHR ''0'' then Some NZero
      else if is_digit c then Some NInt else None)"
| "num_step NMinus c =
     (if c = CHR ''0'' then Some NZero else if is_digit c then Some NInt else None)"
| "num_step NZero c =
     (if c = CHR ''.'' then Some NDot else if is_e c then Some NE else None)"
| "num_step NInt c =
     (if is_digit c then Some NInt else if c = CHR ''.'' then Some NDot
      else if is_e c then Some NE else None)"
| "num_step NDot c = (if is_digit c then Some NFrac else None)"
| "num_step NFrac c = (if is_digit c then Some NFrac else if is_e c then Some NE else None)"
| "num_step NE c =
     (if c = CHR ''+'' \<or> c = CHR ''-'' then Some NESign
      else if is_digit c then Some NExp else None)"
| "num_step NESign c = (if is_digit c then Some NExp else None)"
| "num_step NExp c = (if is_digit c then Some NExp else None)"

fun num_final :: "nstate \<Rightarrow> bool" where
  "num_final NZero = True"
| "num_final NInt = True"
| "num_final NFrac = True"
| "num_final NExp = True"
| "num_final _ = False"

fun num_run :: "nstate \<Rightarrow> string \<Rightarrow> bool" where
  "num_run q [] = num_final q"
| "num_run q (c # cs) = (case num_step q c of None \<Rightarrow> False | Some q' \<Rightarrow> num_run q' cs)"

definition json_number :: "string \<Rightarrow> bool" where
  "json_number s = num_run NStart s"

datatype sstate = SBody | SEsc | SHex nat

definition is_hex :: "char \<Rightarrow> bool" where
  "is_hex c = (c \<in> set ''0123456789abcdefABCDEF'')"

fun str_step :: "sstate \<Rightarrow> char \<Rightarrow> sstate option" where
  "str_step SBody c =
     (if c = CHR 0x5C then Some SEsc
      else if c = CHR 0x22 \<or> (of_char c :: nat) < 32 then None
      else Some SBody)"
| "str_step SEsc c =
     (if c \<in> set [CHR 0x22, CHR 0x5C, CHR ''/'', CHR ''b'', CHR ''f'', CHR ''n'', CHR ''r'', CHR ''t'']
      then Some SBody
      else if c = CHR ''u'' then Some (SHex 3) else None)"
| "str_step (SHex n) c =
     (if is_hex c then (case n of 0 \<Rightarrow> Some SBody | Suc m \<Rightarrow> Some (SHex m)) else None)"

fun str_run :: "sstate \<Rightarrow> string \<Rightarrow> bool" where
  "str_run q [] = (q = SBody)"
| "str_run q (c # cs) = (case str_step q c of None \<Rightarrow> False | Some q' \<Rightarrow> str_run q' cs)"

definition json_string_body :: "string \<Rightarrow> bool" where
  "json_string_body s = str_run SBody s"

inductive json_value :: "string \<Rightarrow> bool"
  and json_elements :: "string \<Rightarrow> string list \<Rightarrow> bool"
  and json_members :: "string \<Rightarrow> (string \<times> string) list \<Rightarrow> bool"
where
  Null: "json_value ''null''"
| JTrue: "json_value ''true''"
| JFalse: "json_value ''false''"
| Number: "json_number s \<Longrightarrow> json_value s"
| String: "json_string_body s \<Longrightarrow> json_value (CHR 0x22 # s @ [CHR 0x22])"
| EmptyArray: "ws w \<Longrightarrow> json_value (CHR ''['' # w @ '']'')"
| Array: "json_elements es vs \<Longrightarrow> json_value (CHR ''['' # es @ '']'')"
| EmptyObject: "ws w \<Longrightarrow> json_value (CHR ''{'' # w @ ''}'')"
| Object: "json_members ms kvs \<Longrightarrow> json_value (CHR ''{'' # ms @ ''}'')"
| Element: "ws a \<Longrightarrow> json_value v \<Longrightarrow> ws b \<Longrightarrow> json_elements (a @ v @ b) [v]"
| Elements:
    "ws a \<Longrightarrow> json_value v \<Longrightarrow> ws b \<Longrightarrow> json_elements es vs \<Longrightarrow>
     json_elements (a @ v @ b @ CHR '','' # es) (v # vs)"
| Member:
    "ws a \<Longrightarrow> json_string_body k \<Longrightarrow> ws b \<Longrightarrow> ws c \<Longrightarrow> json_value v \<Longrightarrow> ws d \<Longrightarrow>
     json_members (a @ CHR 0x22 # k @ CHR 0x22 # b @ CHR '':'' # c @ v @ d) [(k, v)]"
| Members:
    "ws a \<Longrightarrow> json_string_body k \<Longrightarrow> ws b \<Longrightarrow> ws c \<Longrightarrow> json_value v \<Longrightarrow> ws d \<Longrightarrow>
     json_members ms kvs \<Longrightarrow>
     json_members (a @ CHR 0x22 # k @ CHR 0x22 # b @ CHR '':'' # c @ v @ d @ CHR '','' # ms)
       ((k, v) # kvs)"

text \<open>
  \<open>json_object s kvs\<close>: the text \<open>s\<close> is a JSON object whose top-level members are, in
  order, the pairs \<open>kvs\<close> of key (as spelled between its quotes) and value text.
\<close>

definition json_object :: "string \<Rightarrow> (string \<times> string) list \<Rightarrow> bool" where
  "json_object s kvs =
     (\<exists>ms. s = CHR ''{'' # ms @ ''}'' \<and> (json_members ms kvs \<or> (ws ms \<and> kvs = [])))"

subsection \<open>A recogniser\<close>

text \<open>
  A recursive-descent recogniser for the grammar, with fuel for the nesting and the
  sequences.  It answers the rest of the input behind the value it read; for an object
  it also answers the members.
\<close>

definition skip_ws :: "string \<Rightarrow> string" where
  "skip_ws s = dropWhile is_ws s"

definition is_numchar :: "char \<Rightarrow> bool" where
  "is_numchar c = (is_digit c \<or> c \<in> set ''-+.eE'')"

fun scan_string :: "sstate \<Rightarrow> string \<Rightarrow> (string \<times> string) option" where
  "scan_string q [] = None"
| "scan_string q (c # cs) =
     (if q = SBody \<and> c = CHR 0x22 then Some ([], cs)
      else
        (case str_step q c of
           None \<Rightarrow> None
         | Some q' \<Rightarrow> map_option (\<lambda>(b, r). (c # b, r)) (scan_string q' cs)))"

definition strip_prefix :: "string \<Rightarrow> string \<Rightarrow> string option" where
  "strip_prefix p s = (if take (length p) s = p then Some (drop (length p) s) else None)"

fun parse_value :: "nat \<Rightarrow> string \<Rightarrow> string option"
  and parse_elements :: "nat \<Rightarrow> string \<Rightarrow> string option"
  and parse_members :: "nat \<Rightarrow> string \<Rightarrow> ((string \<times> string) list \<times> string) option"
where
  "parse_value 0 s = None"
| "parse_value (Suc n) [] = None"
| "parse_value (Suc n) (c # cs) =
     (if c = CHR ''['' then
        (case skip_ws cs of
           [] \<Rightarrow> None
         | c' # r \<Rightarrow> if c' = CHR '']'' then Some r else parse_elements n cs)
      else if c = CHR ''{'' then
        (case skip_ws cs of
           [] \<Rightarrow> None
         | c' # r \<Rightarrow> if c' = CHR ''}'' then Some r else map_option snd (parse_members n cs))
      else if c = CHR 0x22 then map_option snd (scan_string SBody cs)
      else if c = CHR ''n'' then strip_prefix ''ull'' cs
      else if c = CHR ''t'' then strip_prefix ''rue'' cs
      else if c = CHR ''f'' then strip_prefix ''alse'' cs
      else if json_number (takeWhile is_numchar (c # cs))
        then Some (dropWhile is_numchar (c # cs))
      else None)"
| "parse_elements 0 s = None"
| "parse_elements (Suc n) s =
     (let s1 = skip_ws s
      in case parse_value n s1 of
           None \<Rightarrow> None
         | Some r \<Rightarrow>
             (case skip_ws r of
                [] \<Rightarrow> None
              | c # r' \<Rightarrow>
                  if c = CHR '','' then parse_elements n r'
                  else if c = CHR '']'' then Some r'
                  else None))"
| "parse_members 0 s = None"
| "parse_members (Suc n) s =
     (case skip_ws s of
        [] \<Rightarrow> None
      | q # r1 \<Rightarrow>
          if q \<noteq> CHR 0x22 then None
          else
            (case scan_string SBody r1 of
               None \<Rightarrow> None
             | Some (k, r2) \<Rightarrow>
                 (case skip_ws r2 of
                    [] \<Rightarrow> None
                  | colon # r3 \<Rightarrow>
                      if colon \<noteq> CHR '':'' then None
                      else
                        (let r4 = skip_ws r3
                         in case parse_value n r4 of
                              None \<Rightarrow> None
                            | Some r5 \<Rightarrow>
                                (let v = take (length r4 - length r5) r4
                                 in case skip_ws r5 of
                                      [] \<Rightarrow> None
                                    | c # r6 \<Rightarrow>
                                        if c = CHR '','' then
                                          map_option (\<lambda>(kvs, r). ((k, v) # kvs, r))
                                            (parse_members n r6)
                                        else if c = CHR ''}'' then Some ([(k, v)], r6)
                                        else None)))))"

definition fuel :: "string \<Rightarrow> nat" where
  "fuel s = Suc (length s + length s)"

definition parses :: "string \<Rightarrow> bool" where
  "parses s = (parse_value (fuel s) s = Some [])"

definition parse_object :: "string \<Rightarrow> (string \<times> string) list option" where
  "parse_object s =
     (case s of
        [] \<Rightarrow> None
      | c # cs \<Rightarrow>
          if c \<noteq> CHR ''{'' then None
          else
            (case parse_members (fuel s) cs of
               None \<Rightarrow> None
             | Some (kvs, r) \<Rightarrow> if r = [] then Some kvs else None))"

subsection \<open>A necessary condition\<close>

text \<open>
  Outside string literals a JSON text holds only white space, punctuation, the
  characters of numbers and the letters of \<open>true\<close>, \<open>false\<close> and \<open>null\<close>.  \<open>outside\<close>
  runs over a text keeping track of whether it is inside a string literal (and behind a
  backslash there), and fails on any other character outside.
\<close>

datatype lexmode = Out | InStr | InEsc

definition plain_char :: "char \<Rightarrow> bool" where
  "plain_char c = (is_ws c \<or> is_numchar c \<or> c \<in> set ''{}[],:truefalsn'')"

fun outside :: "lexmode \<Rightarrow> string \<Rightarrow> lexmode option" where
  "outside m [] = Some m"
| "outside Out (c # cs) =
     (if c = CHR 0x22 then outside InStr cs
      else if plain_char c then outside Out cs
      else None)"
| "outside InStr (c # cs) =
     (if c = CHR 0x22 then outside Out cs
      else if c = CHR 0x5C then outside InEsc cs
      else outside InStr cs)"
| "outside InEsc (c # cs) = outside InStr cs"

text \<open>The mode in which \<open>outside\<close> reads a character that the string automaton reads in a given state.\<close>

fun mode_of :: "sstate \<Rightarrow> lexmode" where
  "mode_of SEsc = InEsc"
| "mode_of _ = InStr"

section \<open>Notions used to state the properties\<close>

text \<open>The members a struct encoding emits: the fields that are present and encoded.\<close>

fun emitted :: "field list \<Rightarrow> (string \<times> string) list" where
  "emitted [] = []"
| "emitted ((k, Some (Inr v)) # fs) = (k, v) # emitted fs"
| "emitted (f # fs) = emitted fs"

text \<open>
  The parameters print every leaf of this dataset's styling, where they print it at
  all, as a JSON value.
\<close>

definition leaves_valid :: "encoders \<Rightarrow> Dataset \<Rightarrow> bool" where
  "leaves_valid L d =
     ((\<forall>x \<in> set (float_leaves d). \<forall>s. floatEncoder L x = Inr s \<longrightarrow> json_value s) \<and>
      (\<forall>t \<in> set (string_leaves d). json_value (stringEncoder L t)) \<and>
      (\<forall>c \<in> set (rgba_leaves d). \<forall>s. rgbaEncoder L c = Inr s \<longrightarrow> json_value s))"

text \<open>The keys of the field tags of \<open>Dataset\<close>, in the order of the fields.\<close>

definition Dataset_keys :: "string list" where
  "Dataset_keys =
     [''type'', ''backgroundColor'', ''borderColor'', ''borderWidth'', ''label'', ''fill'',
      ''steppedLine'', ''lineTension'', ''cubicInterpolationMode'', ''pointBackgroundColor'',
      ''pointBorderColor'', ''pointBorderWidth'', ''pointRadius'', ''pointHitRadius'',
      ''pointHoverRadius'', ''pointHoverBorderColor'', ''pointHoverBorderWidth'', ''pointStyle'',
      ''showLine'', ''spanGaps'', ''xAxisID'', ''yAxisID'']"


text \<open>
  The two errors of the axis operations; the specification calls their kind
  \<open>InvalidAxisPosition\<close>.
\<close>

definition InvalidAxisPositionX :: error where
  "InvalidAxisPositionX = Errorf ''chart: added x-axis to left or right''"

definition InvalidAxisPositionY :: error where
  "InvalidAxisPositionY = Errorf ''chart: added y-axis to top or bottom''"

definition InvalidAxisPosition :: "error \<Rightarrow> bool" where
  "InvalidAxisPosition e = (e = InvalidAxisPositionX \<or> e = InvalidAxisPositionY)"

section \<open>Evaluating the formatter\<close>

lemma show_nat_small: "n < 10 \<Longrightarrow> show_nat n = [''0123456789'' ! n]"
  by (simp add: show_nat.simps)

lemma show_nat_large:
  "10 \<le> n \<Longrightarrow> show_nat n = show_nat (n div 10) @ [''0123456789'' ! (n mod 10)]"
  by (subst show_nat.simps) simp

lemmas format_defs =
  show_nat_small show_nat_large Sprintf_def is_digit_def digit_val_def round_scaled_def fixed_digits_def
  pointXY_def pointXYR_def array_text_def

lemmas json_defs =
  json_number_def json_string_body_def is_digit_def is_e_def is_hex_def is_ws_def ws_def

section \<open>The grammar: building texts\<close>

lemma ws_Nil [simp]: "ws []"
  by (simp add: ws_def)

lemma ws_append [simp]: "ws (a @ b) \<longleftrightarrow> ws a \<and> ws b"
  by (simp add: ws_def)



lemma json_members_snoc:
  "json_members ms kvs \<Longrightarrow> json_string_body k \<Longrightarrow> json_value v \<Longrightarrow>
   json_members (ms @ CHR '','' # CHR 0x22 # k @ CHR 0x22 # CHR '':'' # v) (kvs @ [(k, v)])"
proof (induction ms kvs
    rule: json_value_json_elements_json_members.inducts(3)
      [where ?P1.0 = "\<lambda>_. True" and ?P2.0 = "\<lambda>_ _. True"])
  case (Member a k' b c v' d)
  from Member.prems have m: "json_members (CHR 0x22 # k @ CHR 0x22 # CHR '':'' # v) [(k, v)]"
    using json_value_json_elements_json_members.Member [of "[]" k "[]" "[]" v "[]"] by simp
  from Member.hyps m show ?case
    using Members [of a k' b c v' d "CHR 0x22 # k @ CHR 0x22 # CHR '':'' # v" "[(k, v)]"] by simp
next
  case (Members a k' b c v' d ms kvs)
  from Members.hyps Members.IH [OF Members.prems] show ?case
    using json_value_json_elements_json_members.Members
      [of a k' b c v' d "ms @ CHR '','' # CHR 0x22 # k @ CHR 0x22 # CHR '':'' # v" "kvs @ [(k, v)]"]
    by simp
qed simp_all


section \<open>The recogniser is sound\<close>

lemma skip_ws_split: "\<exists>w. ws w \<and> s = w @ skip_ws s"
proof -
  have "ws (takeWhile is_ws s)"
    by (simp add: ws_def list_all_iff) (meson set_takeWhileD)
  then show ?thesis
    unfolding skip_ws_def by (metis takeWhile_dropWhile_id)
qed

lemma skip_ws_Cons:
  assumes "skip_ws s = c # r"
  obtains w where "ws w" and "s = w @ c # r"
  using skip_ws_split [of s] assms by auto

lemma scan_string_sound:
  "scan_string q s = Some (b, r) \<Longrightarrow> s = b @ CHR 0x22 # r \<and> str_run q b"
proof (induction s arbitrary: q b r)
  case Nil
  then show ?case by simp
next
  case (Cons c cs)
  show ?case
  proof (cases "q = SBody \<and> c = CHR 0x22")
    case True
    with Cons.prems show ?thesis by auto
  next
    case False
    with Cons.prems obtain q' b' where q': "str_step q c = Some q'"
      and rec: "scan_string q' cs = Some (b', r)" and b: "b = c # b'"
      by (auto split: option.splits)
    from Cons.IH [OF rec] q' b show ?thesis by simp
  qed
qed

lemma strip_prefix_sound: "strip_prefix p s = Some r \<Longrightarrow> s = p @ r"
  unfolding strip_prefix_def
  by (metis append_take_drop_id option.distinct(1) option.inject)

lemma parse_value_step:
  assumes IHe: "\<And>s r. parse_elements n s = Some r \<Longrightarrow>
                  \<exists>es vs. s = es @ CHR '']'' # r \<and> json_elements es vs"
    and IHm: "\<And>s kvs r. parse_members n s = Some (kvs, r) \<Longrightarrow>
                  \<exists>ms. s = ms @ CHR ''}'' # r \<and> json_members ms kvs"
    and p: "parse_value (Suc n) s = Some r"
  shows "\<exists>v. s = v @ r \<and> json_value v"
proof (cases s)
  case Nil
  with p show ?thesis by simp
next
  case (Cons c cs)
  consider (arr) "c = CHR ''[''" | (obj) "c = CHR ''{''" | (str) "c = CHR 0x22"
    | (null) "c = CHR ''n''" | (true) "c = CHR ''t''" | (false) "c = CHR ''f''"
    | (num) "c \<notin> set [CHR ''['', CHR ''{'', CHR 0x22, CHR ''n'', CHR ''t'', CHR ''f'']"
    by auto
  then show ?thesis
  proof cases
    case arr
    show ?thesis
    proof (cases "skip_ws cs")
      case Nil
      with p Cons arr show ?thesis by simp
    next
      case (Cons c' r')
      show ?thesis
      proof (cases "c' = CHR '']''")
        case True
        with p \<open>s = c # cs\<close> arr Cons have r: "r = r'" by simp
        from Cons obtain w where "ws w" "cs = w @ c' # r'" by (rule skip_ws_Cons)
        with True r \<open>s = c # cs\<close> arr have "s = (CHR ''['' # w @ '']'') @ r" by simp
        with EmptyArray [OF \<open>ws w\<close>] show ?thesis by blast
      next
        case False
        with p \<open>s = c # cs\<close> arr Cons have "parse_elements n cs = Some r" by simp
        from IHe [OF this] obtain es vs where "cs = es @ CHR '']'' # r" "json_elements es vs"
          by blast
        with \<open>s = c # cs\<close> arr have "s = (CHR ''['' # es @ '']'') @ r" by simp
        with Array [OF \<open>json_elements es vs\<close>] show ?thesis by blast
      qed
    qed
  next
    case obj
    show ?thesis
    proof (cases "skip_ws cs")
      case Nil
      with p Cons obj show ?thesis by simp
    next
      case (Cons c' r')
      show ?thesis
      proof (cases "c' = CHR ''}''")
        case True
        with p \<open>s = c # cs\<close> obj Cons have r: "r = r'" by simp
        from Cons obtain w where "ws w" "cs = w @ c' # r'" by (rule skip_ws_Cons)
        with True r \<open>s = c # cs\<close> obj have "s = (CHR ''{'' # w @ ''}'') @ r" by simp
        with EmptyObject [OF \<open>ws w\<close>] show ?thesis by blast
      next
        case False
        with p \<open>s = c # cs\<close> obj Cons obtain kvs where "parse_members n cs = Some (kvs, r)"
          by auto
        from IHm [OF this] obtain ms where "cs = ms @ CHR ''}'' # r" "json_members ms kvs"
          by blast
        with \<open>s = c # cs\<close> obj have "s = (CHR ''{'' # ms @ ''}'') @ r" by simp
        with Object [OF \<open>json_members ms kvs\<close>] show ?thesis by blast
      qed
    qed
  next
    case str
    with p Cons obtain b where "scan_string SBody cs = Some (b, r)" by auto
    from scan_string_sound [OF this] have "cs = b @ CHR 0x22 # r" "json_string_body b"
      by (simp_all add: json_string_body_def)
    with Cons str have "s = (CHR 0x22 # b @ [CHR 0x22]) @ r" by simp
    with String [OF \<open>json_string_body b\<close>] show ?thesis by blast
  next
    case null
    with p Cons have "strip_prefix ''ull'' cs = Some r" by simp
    from strip_prefix_sound [OF this] Cons null have "s = ''null'' @ r" by simp
    with Null show ?thesis by blast
  next
    case true
    with p Cons have "strip_prefix ''rue'' cs = Some r" by simp
    from strip_prefix_sound [OF this] Cons true have "s = ''true'' @ r" by simp
    with JTrue show ?thesis by blast
  next
    case false
    with p Cons have "strip_prefix ''alse'' cs = Some r" by simp
    from strip_prefix_sound [OF this] Cons false have "s = ''false'' @ r" by simp
    with JFalse show ?thesis by blast
  next
    case num
    with p Cons have n: "json_number (takeWhile is_numchar s)" and r: "r = dropWhile is_numchar s"
      by (auto split: if_splits)
    from r have "s = takeWhile is_numchar s @ r" by simp
    with Number [OF n] show ?thesis by blast
  qed
qed

lemma parse_elements_step:
  assumes IHv: "\<And>s r. parse_value n s = Some r \<Longrightarrow> \<exists>v. s = v @ r \<and> json_value v"
    and IHe: "\<And>s r. parse_elements n s = Some r \<Longrightarrow>
                  \<exists>es vs. s = es @ CHR '']'' # r \<and> json_elements es vs"
    and p: "parse_elements (Suc n) s = Some r"
  shows "\<exists>es vs. s = es @ CHR '']'' # r \<and> json_elements es vs"
proof -
  obtain a where a: "ws a" "s = a @ skip_ws s" using skip_ws_split by blast
  from p obtain r1 where r1: "parse_value n (skip_ws s) = Some r1"
    by (auto simp: Let_def split: option.splits)
  from IHv [OF r1] obtain v where v: "skip_ws s = v @ r1" "json_value v" by blast
  from p r1 obtain c r2 where c: "skip_ws r1 = c # r2"
    by (auto simp: Let_def split: list.splits)
  then obtain b where b: "ws b" "r1 = b @ c # r2" by (rule skip_ws_Cons)
  have s: "s = a @ v @ b @ c # r2" using a v b by simp
  show ?thesis
  proof (cases "c = CHR '',''")
    case True
    with p r1 c have "parse_elements n r2 = Some r" by (simp add: Let_def)
    from IHe [OF this] obtain es vs where es: "r2 = es @ CHR '']'' # r" "json_elements es vs"
      by blast
    from Elements [OF a(1) v(2) b(1) es(2)] s True es(1) show ?thesis
      by (metis append.assoc append_Cons)
  next
    case False
    with p r1 c have "c = CHR '']''" "r2 = r" by (auto simp: Let_def split: if_splits)
    with Element [OF a(1) v(2) b(1)] s show ?thesis
      by (metis append.assoc)
  qed
qed

lemma parse_members_step:
  assumes IHv: "\<And>s r. parse_value n s = Some r \<Longrightarrow> \<exists>v. s = v @ r \<and> json_value v"
    and IHm: "\<And>s kvs r. parse_members n s = Some (kvs, r) \<Longrightarrow>
                  \<exists>ms. s = ms @ CHR ''}'' # r \<and> json_members ms kvs"
    and p: "parse_members (Suc n) s = Some (kvs, r)"
  shows "\<exists>ms. s = ms @ CHR ''}'' # r \<and> json_members ms kvs"
proof -
  from p obtain q r1 where q: "skip_ws s = q # r1"
    by (auto split: list.splits)
  with p have qq: "q = CHR 0x22" by (auto split: if_splits)
  from q obtain a where a: "ws a" "s = a @ q # r1" by (rule skip_ws_Cons)
  from p q qq obtain k r2 where k: "scan_string SBody r1 = Some (k, r2)"
    by (auto split: option.splits)
  from scan_string_sound [OF k] have k': "r1 = k @ CHR 0x22 # r2" "json_string_body k"
    by (simp_all add: json_string_body_def)
  from p q qq k obtain colon r3 where col: "skip_ws r2 = colon # r3"
    by (auto split: list.splits)
  with p q qq k have colon: "colon = CHR '':''" by (auto split: if_splits)
  from col obtain b where b: "ws b" "r2 = b @ colon # r3" by (rule skip_ws_Cons)
  obtain c where c: "ws c" "r3 = c @ skip_ws r3" using skip_ws_split by blast
  from p q qq k col colon obtain r5 where r5: "parse_value n (skip_ws r3) = Some r5"
    by (auto simp: Let_def split: option.splits)
  from IHv [OF r5] obtain v where v: "skip_ws r3 = v @ r5" "json_value v" by blast
  then have take: "take (length (skip_ws r3) - length r5) (skip_ws r3) = v" by simp
  from p q qq k col colon r5 obtain e r6 where e: "skip_ws r5 = e # r6"
    by (auto simp: Let_def split: list.splits)
  then obtain d where d: "ws d" "r5 = d @ e # r6" by (rule skip_ws_Cons)
  have s: "s = a @ CHR 0x22 # k @ CHR 0x22 # b @ CHR '':'' # c @ v @ d @ e # r6"
    using a qq k' b colon c v d by simp
  show ?thesis
  proof (cases "e = CHR '',''")
    case True
    with p q qq k col colon r5 e take obtain kvs' where
      rec: "parse_members n r6 = Some (kvs', r)" and kvs: "kvs = (k, v) # kvs'"
      by (auto simp: Let_def)
    from IHm [OF rec] obtain ms where ms: "r6 = ms @ CHR ''}'' # r" "json_members ms kvs'"
      by blast
    from Members [OF a(1) k'(2) b(1) c(1) v(2) d(1) ms(2)] s True ms(1) kvs show ?thesis
      by (metis (no_types, lifting) append.assoc append_Cons)
  next
    case False
    with p q qq k col colon r5 e take have "e = CHR ''}''" "r6 = r" "kvs = [(k, v)]"
      by (auto simp: Let_def split: if_splits)
    with Member [OF a(1) k'(2) b(1) c(1) v(2) d(1)] s show ?thesis
      by (metis (no_types, lifting) append.assoc append_Cons)
  qed
qed

lemma parse_sound:
  "(\<forall>s r. parse_value n s = Some r \<longrightarrow> (\<exists>v. s = v @ r \<and> json_value v)) \<and>
   (\<forall>s r. parse_elements n s = Some r \<longrightarrow>
      (\<exists>es vs. s = es @ CHR '']'' # r \<and> json_elements es vs)) \<and>
   (\<forall>s kvs r. parse_members n s = Some (kvs, r) \<longrightarrow>
      (\<exists>ms. s = ms @ CHR ''}'' # r \<and> json_members ms kvs))"
proof (induction n)
  case 0
  show ?case by simp
next
  case (Suc n)
  then have IHv: "\<And>s r. parse_value n s = Some r \<Longrightarrow> \<exists>v. s = v @ r \<and> json_value v"
    and IHe: "\<And>s r. parse_elements n s = Some r \<Longrightarrow>
                  \<exists>es vs. s = es @ CHR '']'' # r \<and> json_elements es vs"
    and IHm: "\<And>s kvs r. parse_members n s = Some (kvs, r) \<Longrightarrow>
                  \<exists>ms. s = ms @ CHR ''}'' # r \<and> json_members ms kvs"
    by blast+
  show ?case
    using parse_value_step [OF IHe IHm] parse_elements_step [OF IHv IHe]
      parse_members_step [OF IHv IHm]
    by blast
qed

lemma parses_sound: "parses s \<Longrightarrow> json_value s"
  using parse_sound [of "fuel s"] unfolding parses_def by fastforce

lemma parse_object_sound: "parse_object s = Some kvs \<Longrightarrow> json_object s kvs"
proof -
  assume p: "parse_object s = Some kvs"
  then obtain cs where s: "s = CHR ''{'' # cs" and m: "parse_members (fuel s) cs = Some (kvs, [])"
    by (auto simp: parse_object_def split: list.splits if_splits option.splits)
  from parse_sound [of "fuel s"] m obtain ms where "cs = ms @ ''}''" "json_members ms kvs"
    by blast
  with s show ?thesis unfolding json_object_def by blast
qed

section \<open>What no JSON text contains\<close>

lemma outside_append:
  "outside m (a @ b) = (case outside m a of None \<Rightarrow> None | Some m' \<Rightarrow> outside m' b)"
  by (induction m a rule: outside.induct) simp_all

lemma outside_ws: "ws w \<Longrightarrow> outside Out w = Some Out"
  by (induction w) (auto simp: ws_def plain_char_def is_ws_def)

lemma num_step_plain:
  "num_step q c = Some q' \<Longrightarrow> plain_char c \<and> c \<noteq> CHR 0x22"
  by (cases q) (auto simp: plain_char_def is_numchar_def is_digit_def is_e_def split: if_splits)

lemma outside_num_run: "num_run q s \<Longrightarrow> outside Out s = Some Out"
proof (induction s arbitrary: q)
  case Nil
  then show ?case by simp
next
  case (Cons c cs)
  then obtain q' where q': "num_step q c = Some q'" and r: "num_run q' cs"
    by (auto split: option.splits)
  from num_step_plain [OF q'] Cons.IH [OF r] show ?case by simp
qed

lemma str_step_mode:
  "str_step q c = Some q' \<Longrightarrow> outside (mode_of q) (c # cs) = outside (mode_of q') cs"
  by (cases q) (auto simp: is_hex_def split: if_splits nat.splits)

lemma outside_str_run: "str_run q s \<Longrightarrow> outside (mode_of q) s = Some InStr"
proof (induction s arbitrary: q)
  case Nil
  then show ?case by simp
next
  case (Cons c cs)
  then obtain q' where q': "str_step q c = Some q'" and r: "str_run q' cs"
    by (auto split: option.splits)
  from str_step_mode [OF q'] Cons.IH [OF r] show ?case by simp
qed

lemma outside_body: "json_string_body k \<Longrightarrow> outside InStr k = Some InStr"
  using outside_str_run [of SBody k] by (simp add: json_string_body_def)

lemma outside_string: "json_string_body s \<Longrightarrow> outside Out (CHR 0x22 # s @ CHR 0x22 # t) = outside Out t"
  using outside_str_run [of SBody s]
  by (simp add: json_string_body_def outside_append)

lemma outside_json:
  "(json_value s \<longrightarrow> outside Out s = Some Out) \<and>
   (json_elements es vs \<longrightarrow> outside Out es = Some Out) \<and>
   (json_members ms kvs \<longrightarrow> outside Out ms = Some Out)"
proof (induction rule: json_value_json_elements_json_members.induct)
  case (Number s)
  then show ?case by (simp add: json_number_def outside_num_run)
next
  case (String s)
  then show ?case using outside_string [of s "[]"] by simp
qed (simp_all add: outside_append outside_ws outside_body plain_char_def)

lemma json_value_outside: "json_value s \<Longrightarrow> outside Out s = Some Out"
  using outside_json by blast

section \<open>The formatter prints numbers\<close>





lemma num_run_int_digits:
  "list_all is_digit ds \<Longrightarrow> num_run NInt (ds @ rest) = num_run NInt rest"
  by (induction ds) simp_all


lemma num_run_exp_digits [simp]: "is_digit c \<Longrightarrow> c \<noteq> CHR ''-''"
  by (auto simp: is_digit_def)







lemma pointXY_default:
  "pointXY ''%.2f'' ''%.2f'' x y =
     (if IsNaN y then ''{\"x\":'' @ fmtFloat 2 x @ '',\"y\": null }''
      else ''{\"x\":'' @ fmtFloat 2 x @ '',\"y\":'' @ fmtFloat 2 y @ ''}'')"
  by (simp add: pointXY_def Sprintf_def is_digit_def digit_val_def) (simp add: numeral_2_eq_2)

lemma pointXYR_default:
  "pointXYR ''%.2f'' ''%.2f'' x y r =
     (if IsNaN y then ''{\"x\":'' @ fmtFloat 2 x @ '',\"y\": null,\"r\":'' @ fmtFloat 2 r @ ''}''
      else ''{\"x\":'' @ fmtFloat 2 x @ '',\"y\":'' @ fmtFloat 2 y @ '',\"r\":'' @ fmtFloat 2 r @ ''}'')"
  by (simp add: pointXYR_def Sprintf_def is_digit_def digit_val_def) (simp add: numeral_2_eq_2)


section \<open>The struct encoding is a JSON object\<close>

lemma json_members_Cons:
  assumes "json_string_body k" and "json_value v" and "json_members ms kvs"
  shows "json_members (quote k @ CHR '':'' # v @ CHR '','' # ms) ((k, v) # kvs)"
  using Members [of "[]" k "[]" "[]" v "[]" ms kvs] assms by (simp add: quote_def)

lemma json_members_single:
  assumes "json_string_body k" and "json_value v"
  shows "json_members (quote k @ CHR '':'' # v) [(k, v)]"
  using Member [of "[]" k "[]" "[]" v "[]"] assms by (simp add: quote_def)

lemma struct_members_emitted:
  "struct_members fs = Inr ms \<Longrightarrow> ms = map (\<lambda>(k, v). quote k @ '':'' @ v) (emitted fs)"
  by (induction fs arbitrary: ms rule: struct_members.induct) (auto split: sum.splits)

lemma emitted_subset: "(k, v) \<in> set (emitted fs) \<Longrightarrow> (k, Some (Inr v)) \<in> set fs"
  by (induction fs rule: emitted.induct) auto

lemma struct_members_present:
  "struct_members fs = Inr ms \<Longrightarrow> (k, Some e) \<in> set fs \<Longrightarrow> \<exists>v. e = Inr v \<and> (k, v) \<in> set (emitted fs)"
  by (induction fs arbitrary: ms rule: struct_members.induct) (auto split: sum.splits)

lemma json_members_join:
  assumes "kvs \<noteq> []" and "\<forall>(k, v) \<in> set kvs. json_string_body k \<and> json_value v"
  shows "json_members (join_comma (map (\<lambda>(k, v). quote k @ '':'' @ v) kvs)) kvs"
  using assms
proof (induction kvs rule: induct_list012)
  case 1
  then show ?case by simp
next
  case (2 kv)
  then show ?case by (cases kv) (simp add: json_members_single)
next
  case (3 kv kv' kvs)
  then have "json_members (join_comma (map (\<lambda>(k, v). quote k @ '':'' @ v) (kv' # kvs))) (kv' # kvs)"
    by simp
  with 3 show ?case
    using json_members_Cons [of "fst kv" "snd kv"
        "join_comma (map (\<lambda>(k, v). quote k @ '':'' @ v) (kv' # kvs))" "kv' # kvs"]
    by (cases kv) (simp add: case_prod_unfold)
qed

lemma struct_JSON_object:
  assumes "struct_JSON fs = Inr buf"
    and "\<forall>(k, v) \<in> set (emitted fs). json_string_body k \<and> json_value v"
    and "emitted fs \<noteq> []"
  shows "\<exists>ms. buf = CHR ''{'' # ms @ ''}'' \<and> json_members ms (emitted fs)"
proof -
  from assms(1) obtain ms where ms: "struct_members fs = Inr ms" and buf: "buf = ''{'' @ join_comma ms @ ''}''"
    by (auto simp: struct_JSON_def split: sum.splits)
  from struct_members_emitted [OF ms] json_members_join [OF assms(3,2)] buf show ?thesis
    by auto
qed

lemma splice_object:
  assumes "json_members ms kvs" and "json_value v"
  shows "json_object (splice (CHR ''{'' # ms @ ''}'') v) (kvs @ [(''data'', v)])"
proof -
  have k: "json_string_body ''data''" by (simp add: json_defs)
  have "splice (CHR ''{'' # ms @ ''}'') v
        = CHR ''{'' # (ms @ CHR '','' # CHR 0x22 # ''data'' @ CHR 0x22 # CHR '':'' # v) @ ''}''"
    by (simp add: splice_def butlast_append)
  with json_members_snoc [OF assms(1) k assms(2)] show ?thesis
    unfolding json_object_def by blast
qed

lemma table_lookup_value:
  assumes "table_lookup tab i = Inr v" and "\<forall>s \<in> set tab. json_string_body s"
  shows "json_value v"
proof -
  from assms(1) have i: "0 \<le> i" "nat i < length tab" and v: "v = quote (tab ! nat i)"
    by (auto simp: table_lookup_def split: if_splits)
  from i assms(2) have "json_string_body (tab ! nat i)" by simp
  from String [OF this] v show ?thesis by (simp add: quote_def)
qed

lemma enum_values:
  "chartType_MarshalJSON c = Inr v \<Longrightarrow> json_value v"
  "interpMode_MarshalJSON c = Inr v \<Longrightarrow> json_value v"
  "shape_MarshalJSON c = Inr v \<Longrightarrow> json_value v"
  "axisType_MarshalJSON c = Inr v \<Longrightarrow> json_value v"
  "axisPosition_MarshalJSON c = Inr v \<Longrightarrow> json_value v"
  unfolding chartType_MarshalJSON_def interpMode_MarshalJSON_def shape_MarshalJSON_def
    axisType_MarshalJSON_def axisPosition_MarshalJSON_def
  by (erule table_lookup_value;
      simp add: chartTypes_def interpModes_def shapes_def axisTypes_def axisPositions_def json_defs)+

lemma bool_field_value: "bool_field p = Some (Inr v) \<Longrightarrow> json_value v"
  by (auto simp: bool_field_def split: option.splits intro: JTrue JFalse)


lemma Dataset_fields_keys: "map fst (Dataset_fields L d) = Dataset_keys"
  by (simp add: Dataset_fields_def Dataset_keys_def)

lemma Dataset_keys_bodies: "\<forall>k \<in> set Dataset_keys. json_string_body k"
  by (simp add: Dataset_keys_def json_defs)

lemma data_not_key: "''data'' \<notin> set Dataset_keys"
  by (simp add: Dataset_keys_def)

lemma map_filter_id_member: "Some c \<in> set ps \<Longrightarrow> c \<in> set (List.map_filter id ps)"
  by (induction ps) (auto split: option.splits)

lemma omitempty_value:
  assumes "\<And>v. enc = Inr v \<Longrightarrow> json_value v"
  shows "\<forall>v. omitempty b enc = Some (Inr v) \<longrightarrow> json_value v"
  using assms by (simp add: omitempty_def)

lemma enum_fields:
  "\<forall>v. omitempty b (chartType_MarshalJSON c) = Some (Inr v) \<longrightarrow> json_value v"
  "\<forall>v. omitempty b (interpMode_MarshalJSON c) = Some (Inr v) \<longrightarrow> json_value v"
  "\<forall>v. omitempty b (shape_MarshalJSON c) = Some (Inr v) \<longrightarrow> json_value v"
  by (rule omitempty_value, erule enum_values)+

lemma bool_fields: "\<forall>v. bool_field p = Some (Inr v) \<longrightarrow> json_value v"
  using bool_field_value by blast

lemma rgba_fields:
  assumes "\<forall>c \<in> set (List.map_filter id ps). \<forall>s. rgbaEncoder L c = Inr s \<longrightarrow> json_value s"
    and "p \<in> set ps"
  shows "\<forall>v. rgba_field L p = Some (Inr v) \<longrightarrow> json_value v"
proof (cases p)
  case None
  then show ?thesis by (simp add: rgba_field_def)
next
  case (Some c)
  with assms(2) have "c \<in> set (List.map_filter id ps)" by (simp add: map_filter_id_member)
  with assms(1) Some show ?thesis by (simp add: rgba_field_def)
qed

lemma string_fields:
  assumes "\<forall>t \<in> set (filter (\<lambda>s. s \<noteq> []) ts). json_value (stringEncoder L t)"
    and "t \<in> set ts"
  shows "\<forall>v. string_field L t = Some (Inr v) \<longrightarrow> json_value v"
  using assms by (auto simp: string_field_def omitempty_def)

lemma float_fields:
  assumes "\<forall>x \<in> set xs. \<forall>s. floatEncoder L x = Inr s \<longrightarrow> json_value s" and "x \<in> set xs"
  shows "\<forall>v. Some (floatEncoder L x) = Some (Inr v) \<longrightarrow> json_value v"
  using assms by simp

lemma Dataset_fields_valid:
  assumes ok: "leaves_valid L d"
  shows "list_all (\<lambda>f. \<forall>v. snd f = Some (Inr v) \<longrightarrow> json_value v) (Dataset_fields L d)"
proof -
  from ok have fl: "\<forall>x \<in> set (float_leaves d). \<forall>s. floatEncoder L x = Inr s \<longrightarrow> json_value s"
    and st: "\<forall>t \<in> set (string_leaves d). json_value (stringEncoder L t)"
    and rg: "\<forall>c \<in> set (rgba_leaves d). \<forall>s. rgbaEncoder L c = Inr s \<longrightarrow> json_value s"
    unfolding leaves_valid_def by blast+
  note f = float_fields [OF fl [unfolded float_leaves_def]]
  note s = string_fields [OF st [unfolded string_leaves_def]]
  note r = rgba_fields [OF rg [unfolded rgba_leaves_def]]
  show ?thesis
    unfolding Dataset_fields_def list.pred_inject snd_conv
    by (intro conjI TrueI enum_fields bool_fields f s r; simp)
qed

lemma Dataset_field_values:
  assumes ok: "leaves_valid L d" and f: "(k, Some (Inr v)) \<in> set (Dataset_fields L d)"
  shows "json_value v"
  using Dataset_fields_valid [OF ok] f unfolding list_all_iff by force

lemma splice_valid:
  assumes out: "Dataset_MarshalJSON L g d = Inr out"
    and payload: "payloadJSON (Dataset.Data d) (fst (float_formats g d)) (snd (float_formats g d))
                   = Inr o_bytes"
    and o: "json_value o_bytes"
    and leaves: "leaves_valid L d"
  shows "\<exists>kvs. json_object out (kvs @ [(''data'', o_bytes)]) \<and> ''data'' \<notin> fst ` set kvs \<and>
           json_value out"
proof -
  from out payload obtain buf where buf: "json_Marshal_alias L d = Inr buf"
    and spl: "out = splice buf o_bytes"
    by (auto simp: Dataset_MarshalJSON_def case_prod_unfold split: sum.splits)
  let ?fs = "Dataset_fields L d"
  from buf obtain ms where ms: "struct_members ?fs = Inr ms"
    by (auto simp: json_Marshal_alias_def struct_JSON_def split: sum.splits)
  have "(''borderWidth'', Some (floatEncoder L (BorderWidth d))) \<in> set ?fs"
    by (simp add: Dataset_fields_def)
  from struct_members_present [OF ms this] have ne: "emitted ?fs \<noteq> []" by auto
  have keys: "fst ` set (emitted ?fs) \<subseteq> set Dataset_keys"
    using emitted_subset [of _ _ ?fs] Dataset_fields_keys [of L d]
    by (metis (no_types, lifting) fst_conv image_subsetI list.set_map rev_image_eqI prod.collapse)
  have vals: "\<forall>(k, v) \<in> set (emitted ?fs). json_string_body k \<and> json_value v"
  proof (clarify, intro conjI)
    fix k v assume kv: "(k, v) \<in> set (emitted ?fs)"
    with keys Dataset_keys_bodies show "json_string_body k" by force
    from Dataset_field_values [OF leaves emitted_subset [OF kv]] show "json_value v" .
  qed
  from buf have "struct_JSON ?fs = Inr buf" by (simp add: json_Marshal_alias_def)
  from struct_JSON_object [OF this vals ne] obtain body where
    body: "buf = CHR ''{'' # body @ ''}''" "json_members body (emitted ?fs)" by blast
  from splice_object [OF body(2) o] spl body(1)
  have obj: "json_object out (emitted ?fs @ [(''data'', o_bytes)])" by simp
  then obtain ms' where "out = CHR ''{'' # ms' @ ''}''"
    "json_members ms' (emitted ?fs @ [(''data'', o_bytes)])"
    unfolding json_object_def by auto
  with Object have "json_value out" by blast
  moreover from keys data_not_key have "''data'' \<notin> fst ` set (emitted ?fs)" by blast
  ultimately show ?thesis using obj by blast
qed


lemmas dataset_defs =
  Dataset_MarshalJSON_def json_Marshal_alias_def struct_JSON_def Dataset_fields_def
  omitempty_def rgba_field_def bool_field_def string_field_def float_formats_def
  payloadJSON_def splice_def quote_def zero_Dataset_def nil_iface_def zero_def initial_vars_def
  go_encoders_def go_floatEncoder_def go_stringEncoder_def

lemmas parse_defs =
  parses_def parse_object_def fuel_def skip_ws_def strip_prefix_def is_numchar_def

section \<open>The loops of the numeric-series encoder\<close>

lemma join_comma_Cons: "join_comma (s # ss) = s @ concat (map ((#) CHR '','') ss)"
  by (induction ss arbitrary: s) simp_all

lemma loopX_Suc:
  "loopX xf (Suc i) xs buf = buf @ concat (map (\<lambda>x. CHR '','' # Sprintf xf [x]) xs)"
  by (induction xs arbitrary: i buf) simp_all

lemma loopX_eq: "loopX xf 0 xs buf = buf @ join_comma (map (\<lambda>x. Sprintf xf [x]) xs)"
  by (cases xs) (simp_all add: loopX_Suc join_comma_Cons comp_def)

lemma loopXY_step:
  "i < length ys \<Longrightarrow>
   loopXY xf yf ys i (x # xs) buf =
     loopXY xf yf ys (Suc i) xs ((if 0 < i then buf @ '','' else buf) @ pointXY xf yf x (ys ! i))"
  by (simp add: pointXY_def Let_def)

lemma loopXY_Suc:
  "Suc i + length xs \<le> length ys \<Longrightarrow>
   loopXY xf yf ys (Suc i) xs buf =
     buf @ concat (map (\<lambda>(x, y). CHR '','' # pointXY xf yf x y) (zip xs (drop (Suc i) ys)))"
proof (induction xs arbitrary: i buf)
  case Nil
  then show ?case by simp
next
  case (Cons x xs)
  from Cons.prems have i: "Suc i < length ys" by simp
  then have d: "drop (Suc i) ys = ys ! Suc i # drop (Suc (Suc i)) ys"
    by (simp add: Cons_nth_drop_Suc)
  from Cons.prems have "Suc (Suc i) + length xs \<le> length ys" by simp
  from Cons.IH [OF this] show ?case
    by (simp only: loopXY_step [OF i] d) simp
qed

lemma loopXY_eq:
  assumes "length xs = length ys"
  shows "loopXY xf yf ys 0 xs buf = buf @ join_comma (map2 (pointXY xf yf) xs ys)"
proof (cases xs)
  case Nil
  then show ?thesis by simp
next
  case (Cons x xs')
  with assms obtain y ys' where ys: "ys = y # ys'" and len: "length xs' = length ys'"
    by (cases ys) auto
  have "loopXY xf yf ys 0 (x # xs') buf = loopXY xf yf ys (Suc 0) xs' (buf @ pointXY xf yf x y)"
    using loopXY_step [of 0 ys xf yf x xs' buf] by (simp add: ys)
  also have "\<dots> = (buf @ pointXY xf yf x y) @
      concat (map (\<lambda>(x, y). CHR '','' # pointXY xf yf x y) (zip xs' (drop (Suc 0) ys)))"
    by (rule loopXY_Suc) (use len in \<open>simp add: ys\<close>)
  finally show ?thesis
    by (simp add: Cons ys join_comma_Cons comp_def case_prod_unfold)
qed

lemma loopXYR_step:
  "loopXYR xf yf ys rs i (x # xs) buf =
     loopXYR xf yf ys rs (Suc i) xs
       ((if 0 < i then buf @ '','' else buf) @ pointXYR xf yf x (ys ! i) (rs ! i))"
  by (simp add: pointXYR_def Let_def)

lemma loopXYR_Suc:
  "Suc i + length xs \<le> length ys \<Longrightarrow> Suc i + length xs \<le> length rs \<Longrightarrow>
   loopXYR xf yf ys rs (Suc i) xs buf =
     buf @ concat (map (\<lambda>(x, y, r). CHR '','' # pointXYR xf yf x y r)
                     (zip xs (zip (drop (Suc i) ys) (drop (Suc i) rs))))"
proof (induction xs arbitrary: i buf)
  case Nil
  then show ?case by simp
next
  case (Cons x xs)
  from Cons.prems have i: "Suc i < length ys" "Suc i < length rs" by simp_all
  then have d: "drop (Suc i) ys = ys ! Suc i # drop (Suc (Suc i)) ys"
      "drop (Suc i) rs = rs ! Suc i # drop (Suc (Suc i)) rs"
    by (simp_all add: Cons_nth_drop_Suc)
  from Cons.prems have "Suc (Suc i) + length xs \<le> length ys" "Suc (Suc i) + length xs \<le> length rs"
    by simp_all
  from Cons.IH [OF this] show ?case
    by (simp only: loopXYR_step d) simp
qed

lemma loopXYR_eq:
  assumes "length xs = length ys" and "length xs = length rs"
  shows "loopXYR xf yf ys rs 0 xs buf =
           buf @ join_comma (map (\<lambda>(x, y, r). pointXYR xf yf x y r) (zip xs (zip ys rs)))"
proof (cases xs)
  case Nil
  then show ?thesis by simp
next
  case (Cons x xs')
  with assms obtain y ys' r rs' where ys: "ys = y # ys'" "rs = r # rs'"
    and len: "length xs' = length ys'" "length xs' = length rs'"
    by (cases ys; cases rs) auto
  have "loopXYR xf yf ys rs 0 (x # xs') buf =
          loopXYR xf yf ys rs (Suc 0) xs' (buf @ pointXYR xf yf x y r)"
    by (simp only: loopXYR_step) (simp add: ys)
  also have "\<dots> = (buf @ pointXYR xf yf x y r) @
      concat (map (\<lambda>(x, y, r). CHR '','' # pointXYR xf yf x y r)
                (zip xs' (zip (drop (Suc 0) ys) (drop (Suc 0) rs))))"
    by (rule loopXYR_Suc) (use len in \<open>simp_all add: ys\<close>)
  finally show ?thesis
    by (simp add: Cons ys join_comma_Cons comp_def case_prod_unfold)
qed



lemma marshalValuesJSON_cases:
  "marshalValuesJSON v xf yf =
     (if Xs v = [] then
        (if Rs v \<noteq> [] then Inl (Errorf ''chart: bad format of Values data'')
         else Inr (loopX xf 0 (Ys v) ''['' @ '']''))
      else if Rs v \<noteq> [] then
        (if length (Xs v) \<noteq> length (Ys v) \<or> length (Xs v) \<noteq> length (Rs v)
         then Inl (Errorf ''chart: bad format of Values. All axes must be of the same length'')
         else Inr (loopXYR xf yf (Ys v) (Rs v) 0 (Xs v) ''['' @ '']''))
      else if Ys v \<noteq> [] then
        (if length (Xs v) \<noteq> length (Ys v)
         then Inl (Errorf ''chart: bad format of Values. X and Y must be of the same length'')
         else Inr (loopXY xf yf (Ys v) 0 (Xs v) ''['' @ '']''))
      else Inr (loopX xf 0 (Xs v) ''['' @ '']''))"
  by (simp add: marshalValuesJSON_def Let_def)

lemma marshal_bare:
  assumes "Rs v = []" and "Xs v = [] \<or> Ys v = []"
  shows "marshalValuesJSON v xf yf =
           Inr (array_text (map (\<lambda>x. Sprintf xf [x]) (if Xs v = [] then Ys v else Xs v)))"
  using assms by (auto simp: marshalValuesJSON_cases array_text_def loopX_eq)

lemma marshal_XY:
  assumes "Xs v \<noteq> []" and "Rs v = []" and "Ys v \<noteq> []" and "length (Xs v) = length (Ys v)"
  shows "marshalValuesJSON v xf yf = Inr (array_text (map2 (pointXY xf yf) (Xs v) (Ys v)))"
  using assms by (simp add: marshalValuesJSON_cases array_text_def loopXY_eq)

lemma marshal_XYR:
  assumes "Rs v \<noteq> []" and "length (Xs v) = length (Ys v)" and "length (Xs v) = length (Rs v)"
  shows "marshalValuesJSON v xf yf =
           Inr (array_text (map (\<lambda>(x, y, r). pointXYR xf yf x y r) (zip (Xs v) (zip (Ys v) (Rs v)))))"
proof -
  from assms have "Xs v \<noteq> []" by auto
  with assms show ?thesis
    by (simp add: marshalValuesJSON_cases array_text_def loopXYR_eq)
qed


section \<open>Properties of the numeric-series encoder\<close>

text \<open>
  C10: when X, Y and R are all empty the encoder succeeds and returns the two bytes
  \<open>[]\<close>, whatever the format strings.
\<close>

theorem marshalValuesJSON_all_empty:
  "marshalValuesJSON \<lparr>Xs = [], Ys = [], Rs = []\<rparr> xformat yformat = Inr ''[]''"
  by (simp add: marshalValuesJSON_def)

theorem marshalValuesJSON_all_empty_witness:
  "marshalValuesJSON \<lparr>Xs = [], Ys = [], Rs = []\<rparr> ''%.2f'' ''%.2f'' = Inr ''[]''"
  using marshalValuesJSON_all_empty [of "''%.2f''" "''%.2f''"] by simp

text \<open>
  C1, as stated: for X = [1, 2], Y = [3, NaN], R = [] and the formats \<open>%.2f\<close> the
  encoder returns \<open>[{"x":1.00,"y":3.00},{"x":2.00,"y": null}]\<close>.  It does not: the
  template of a point whose Y is NaN ends in \<open>null }\<close>, with a space before the brace.
\<close>

theorem marshalValuesJSON_example_counterexample:
  "marshalValuesJSON
     \<lparr>Xs = [Finite False 1 0, Finite False 2 0], Ys = [Finite False 3 0, NaN], Rs = []\<rparr>
     ''%.2f'' ''%.2f''
   \<noteq> Inr ''[{\"x\":1.00,\"y\":3.00},{\"x\":2.00,\"y\": null}]''"
  by (simp add: marshalValuesJSON_def format_defs)

text \<open>
  C1, amended: for that input the encoder returns exactly
  \<open>[{"x":1.00,"y":3.00},{"x":2.00,"y": null }]\<close>: \<open>null\<close> stands at the one position
  where Y is NaN, followed by a space.
\<close>

theorem marshalValuesJSON_example:
  "marshalValuesJSON
     \<lparr>Xs = [Finite False 1 0, Finite False 2 0], Ys = [Finite False 3 0, NaN], Rs = []\<rparr>
     ''%.2f'' ''%.2f''
   = Inr ''[{\"x\":1.00,\"y\":3.00},{\"x\":2.00,\"y\": null }]''"
  by (simp add: marshalValuesJSON_def format_defs)

theorem marshalValuesJSON_example_witness:
  "marshalValuesJSON
     \<lparr>Xs = [Finite False 1 0, Finite False 2 0], Ys = [Finite False 3 0, NaN], Rs = []\<rparr>
     ''%.2f'' ''%.2f''
   = Inr ''[{\"x\":1.00,\"y\":3.00},{\"x\":2.00,\"y\": null }]'' \<and>
   json_value ''[{\"x\":1.00,\"y\":3.00},{\"x\":2.00,\"y\": null }]''"
proof -
  have "parses ''[{\"x\":1.00,\"y\":3.00},{\"x\":2.00,\"y\": null }]''"
    by (simp add: parse_defs json_defs)
  with marshalValuesJSON_example show ?thesis
    by (simp add: parses_sound)
qed

text \<open>
  C2, as stated: the encoder fails if and only if R is non-empty and the lengths of X,
  Y, R disagree, or R is empty, Y is non-empty and the lengths of X and Y disagree, or X
  is empty and R is non-empty.  For X = [], Y = [1], R = [] the second condition holds
  (lengths 0 and 1), yet the encoder succeeds: with X empty, Y takes the place of X
  before any length is compared.
\<close>

theorem marshalValuesJSON_fails_iff_counterexample:
  "marshalValuesJSON \<lparr>Xs = [], Ys = [Finite False 1 0], Rs = []\<rparr> ''%.2f'' ''%.2f''
     = Inr ''[1.00]'' \<and>
   Rs \<lparr>Xs = [], Ys = [Finite False 1 0], Rs = []\<rparr> = [] \<and>
   Ys \<lparr>Xs = [], Ys = [Finite False 1 0], Rs = []\<rparr> \<noteq> [] \<and>
   length (Xs \<lparr>Xs = [], Ys = [Finite False 1 0], Rs = []\<rparr>)
     \<noteq> length (Ys \<lparr>Xs = [], Ys = [Finite False 1 0], Rs = []\<rparr>)"
  by (simp add: marshalValuesJSON_def format_defs)

text \<open>
  C2, amended: the encoder fails in exactly three cases, each with its own error:
  \<open>InvalidShape\<close> when X is empty and R is not; \<open>ShapeMismatch\<close> (all axes) when X and R
  are non-empty and the lengths of X, Y, R are not all equal; \<open>ShapeMismatch\<close> (X and Y)
  when X and Y are non-empty, R is empty and the lengths of X and Y differ.  In every
  other case it returns a result.
\<close>

theorem marshalValuesJSON_fails_iff:
  "(marshalValuesJSON v xformat yformat = Inl e \<longleftrightarrow>
      (e = InvalidShape \<and> Xs v = [] \<and> Rs v \<noteq> []) \<or>
      (e = ShapeMismatchXYR \<and> Xs v \<noteq> [] \<and> Rs v \<noteq> [] \<and>
         \<not> (length (Xs v) = length (Ys v) \<and> length (Xs v) = length (Rs v))) \<or>
      (e = ShapeMismatchXY \<and> Xs v \<noteq> [] \<and> Rs v = [] \<and> Ys v \<noteq> [] \<and>
         length (Xs v) \<noteq> length (Ys v))) \<and>
   ((\<exists>out. marshalValuesJSON v xformat yformat = Inr out) \<longleftrightarrow>
      \<not> ((Xs v = [] \<and> Rs v \<noteq> []) \<or>
         (Xs v \<noteq> [] \<and> Rs v \<noteq> [] \<and>
            \<not> (length (Xs v) = length (Ys v) \<and> length (Xs v) = length (Rs v))) \<or>
         (Xs v \<noteq> [] \<and> Rs v = [] \<and> Ys v \<noteq> [] \<and> length (Xs v) \<noteq> length (Ys v))))"
  unfolding marshalValuesJSON_cases InvalidShape_def ShapeMismatchXYR_def ShapeMismatchXY_def
  by auto

theorem marshalValuesJSON_fails_iff_witness:
  "marshalValuesJSON
     \<lparr>Xs = [Finite False 1 0], Ys = [Finite False 1 0, Finite False 2 0], Rs = []\<rparr>
     ''%.2f'' ''%.2f'' = Inl ShapeMismatchXY \<and>
   marshalValuesJSON \<lparr>Xs = [], Ys = [], Rs = [Finite False 1 0]\<rparr> ''%.2f'' ''%.2f''
     = Inl InvalidShape \<and>
   (\<exists>out. marshalValuesJSON \<lparr>Xs = [], Ys = [Finite False 1 0], Rs = []\<rparr> ''%.2f'' ''%.2f''
      = Inr out) \<and>
   ShapeMismatch ShapeMismatchXY"
  using
    marshalValuesJSON_fails_iff
      [of "\<lparr>Xs = [Finite False 1 0], Ys = [Finite False 1 0, Finite False 2 0], Rs = []\<rparr>"
          "''%.2f''" "''%.2f''" ShapeMismatchXY]
    marshalValuesJSON_fails_iff
      [of "\<lparr>Xs = [], Ys = [], Rs = [Finite False 1 0]\<rparr>" "''%.2f''" "''%.2f''" InvalidShape]
    marshalValuesJSON_fails_iff
      [of "\<lparr>Xs = [], Ys = [Finite False 1 0], Rs = []\<rparr>" "''%.2f''" "''%.2f''"]
  by (simp add: ShapeMismatch_def)





text \<open>
  C9: with X and R empty and Y non-empty, each Y value is formatted with the X format
  string; the Y format string is not used, so the result is the same for any two Y
  format strings.
\<close>

theorem marshalValuesJSON_Y_uses_xformat:
  "Xs v = [] \<and> Rs v = [] \<and> Ys v \<noteq> [] \<longrightarrow>
     marshalValuesJSON v xformat yformat
       = Inr (array_text (map (\<lambda>y. Sprintf xformat [y]) (Ys v))) \<and>
     marshalValuesJSON v xformat yformat' = marshalValuesJSON v xformat yformat"
  using marshal_bare [of v xformat yformat] marshal_bare [of v xformat yformat']
  by simp

theorem marshalValuesJSON_Y_uses_xformat_witness:
  "marshalValuesJSON \<lparr>Xs = [], Ys = [Finite False 3 0], Rs = []\<rparr> ''%.1f'' ''%.3f''
     = Inr ''[3.0]'' \<and>
   marshalValuesJSON \<lparr>Xs = [], Ys = [Finite False 3 0], Rs = []\<rparr> ''%.1f'' ''%.5f''
     = marshalValuesJSON \<lparr>Xs = [], Ys = [Finite False 3 0], Rs = []\<rparr> ''%.1f'' ''%.3f''"
  using marshalValuesJSON_Y_uses_xformat
    [of "\<lparr>Xs = [], Ys = [Finite False 3 0], Rs = []\<rparr>" "''%.1f''" "''%.3f''" "''%.5f''"]
  by (simp add: format_defs)

section \<open>Properties of the chart builder\<close>

text \<open>
  C3: for every chart and every axis, \<open>AddXAxis\<close> with position \<open>Left\<close> or \<open>Right\<close>, and
  \<open>AddYAxis\<close> with position \<open>Top\<close> or \<open>Bottom\<close>, return an error of kind
  \<open>InvalidAxisPosition\<close> and leave the chart as it was, its axis mapping included.
\<close>

theorem AddAxis_invalid_position:
  "(Position x = Left \<or> Position x = Right \<longrightarrow>
      AddXAxis c x = (Inl InvalidAxisPositionX, c) \<and>
      Scales (Options (snd (AddXAxis c x))) = Scales (Options c)) \<and>
   (Position y = Top \<or> Position y = Bottom \<longrightarrow>
      AddYAxis c y = (Inl InvalidAxisPositionY, c) \<and>
      Scales (Options (snd (AddYAxis c y))) = Scales (Options c)) \<and>
   InvalidAxisPosition InvalidAxisPositionX \<and> InvalidAxisPosition InvalidAxisPositionY"
  by (auto simp: AddXAxis_def AddYAxis_def InvalidAxisPositionX_def InvalidAxisPositionY_def
      InvalidAxisPosition_def Let_def)

theorem AddAxis_invalid_position_witness:
  "AddXAxis (AddAxis zero_Chart (zero_Axis\<lparr>ID := ''x''\<rparr>)) (zero_Axis\<lparr>Position := Left\<rparr>)
     = (Inl InvalidAxisPositionX, AddAxis zero_Chart (zero_Axis\<lparr>ID := ''x''\<rparr>)) \<and>
   AddYAxis (AddAxis zero_Chart (zero_Axis\<lparr>ID := ''x''\<rparr>)) (zero_Axis\<lparr>Position := Bottom\<rparr>)
     = (Inl InvalidAxisPositionY, AddAxis zero_Chart (zero_Axis\<lparr>ID := ''x''\<rparr>))"
  using AddAxis_invalid_position
    [of "zero_Axis\<lparr>Position := Left\<rparr>" "AddAxis zero_Chart (zero_Axis\<lparr>ID := ''x''\<rparr>)"
        "zero_Axis\<lparr>Position := Bottom\<rparr>"]
  by simp

section \<open>Properties of the dataset encoder\<close>

text \<open>
  C5: the dataset encoder asks the payload for its capabilities in a fixed order.  A
  payload with the raw-JSON capability is encoded by it, whether or not it is also a
  \<open>Values\<close>; a payload without it that is a \<open>Values\<close> is encoded by the numeric-series
  encoder; with neither capability nothing fails and the styling fields are spliced
  with an empty payload.
\<close>

theorem Dataset_MarshalJSON_dispatch:
  "(as_Marshaler (Dataset.Data d) = Some r \<longrightarrow>
      Dataset_MarshalJSON L g d =
        (case r of
           Inl err \<Rightarrow> Inl err
         | Inr o_bytes \<Rightarrow>
             (case json_Marshal_alias L d of
                Inl err \<Rightarrow> Inl err
              | Inr buf \<Rightarrow> Inr (splice buf o_bytes))) \<and>
      Dataset_MarshalJSON L g (d\<lparr>Dataset.Data := (Dataset.Data d)\<lparr>as_Values := w\<rparr>\<rparr>) =
        Dataset_MarshalJSON L g d) \<and>
   (as_Marshaler (Dataset.Data d) = None \<and> as_Values (Dataset.Data d) = Some v \<longrightarrow>
      Dataset_MarshalJSON L g d =
        (case marshalValuesJSON v (fst (float_formats g d)) (snd (float_formats g d)) of
           Inl err \<Rightarrow> Inl err
         | Inr o_bytes \<Rightarrow>
             (case json_Marshal_alias L d of
                Inl err \<Rightarrow> Inl err
              | Inr buf \<Rightarrow> Inr (splice buf o_bytes)))) \<and>
   (as_Marshaler (Dataset.Data d) = None \<and> as_Values (Dataset.Data d) = None \<longrightarrow>
      Dataset_MarshalJSON L g d =
        (case json_Marshal_alias L d of
           Inl err \<Rightarrow> Inl err
         | Inr buf \<Rightarrow> Inr (splice buf [])))"
proof -
  have same: "json_Marshal_alias L (d\<lparr>Dataset.Data := (Dataset.Data d)\<lparr>as_Values := w\<rparr>\<rparr>)
      = json_Marshal_alias L d"
    by (simp add: json_Marshal_alias_def Dataset_fields_def)
  show ?thesis
    by (simp add: Dataset_MarshalJSON_def payloadJSON_def case_prod_unfold float_formats_def
        same split: sum.splits)
qed

theorem Dataset_MarshalJSON_dispatch_witness:
  "Dataset_MarshalJSON go_encoders initial_vars
     (zero_Dataset\<lparr>Dataset.Data :=
        \<lparr>as_Marshaler = Some (Inr ''[7]''),
         as_Values = Some \<lparr>Xs = [Finite False 1 0], Ys = [], Rs = []\<rparr>\<rparr>\<rparr>)
     = Inr ''{\"borderWidth\":0,\"lineTension\":0,\"pointBorderWidth\":0,\"pointRadius\":0,\"pointHitRadius\":0,\"pointHoverRadius\":0,\"pointHoverBorderWidth\":0,\"data\":[7]}'' \<and>
   Dataset_MarshalJSON go_encoders initial_vars
     (zero_Dataset\<lparr>Dataset.Data :=
        \<lparr>as_Marshaler = None,
         as_Values = Some \<lparr>Xs = [Finite False 1 0], Ys = [], Rs = []\<rparr>\<rparr>\<rparr>)
     = Inr ''{\"borderWidth\":0,\"lineTension\":0,\"pointBorderWidth\":0,\"pointRadius\":0,\"pointHitRadius\":0,\"pointHoverRadius\":0,\"pointHoverBorderWidth\":0,\"data\":[1.00]}'' \<and>
   Dataset_MarshalJSON go_encoders initial_vars zero_Dataset
     = Inr ''{\"borderWidth\":0,\"lineTension\":0,\"pointBorderWidth\":0,\"pointRadius\":0,\"pointHitRadius\":0,\"pointHoverRadius\":0,\"pointHoverBorderWidth\":0,\"data\":}''"
  using
    Dataset_MarshalJSON_dispatch
      [of "zero_Dataset\<lparr>Dataset.Data :=
             \<lparr>as_Marshaler = Some (Inr ''[7]''),
              as_Values = Some \<lparr>Xs = [Finite False 1 0], Ys = [], Rs = []\<rparr>\<rparr>\<rparr>"
          "Inr ''[7]''" go_encoders initial_vars]
    Dataset_MarshalJSON_dispatch
      [of "zero_Dataset\<lparr>Dataset.Data :=
             \<lparr>as_Marshaler = None,
              as_Values = Some \<lparr>Xs = [Finite False 1 0], Ys = [], Rs = []\<rparr>\<rparr>\<rparr>"
          _ go_encoders initial_vars _ "\<lparr>Xs = [Finite False 1 0], Ys = [], Rs = []\<rparr>"]
    Dataset_MarshalJSON_dispatch [of zero_Dataset _ go_encoders initial_vars]
  by (simp add: dataset_defs marshalValuesJSON_def format_defs)

text \<open>
  C4, as stated: whenever the payload of a dataset encodes without error, the output of
  the dataset encoder is valid JSON.  For the zero dataset carrying the series
  X = [1], Y = [+Inf] the payload encodes without error, to \<open>[{"x":1.00,"y":+Inf}]\<close>,
  and the encoder returns the styling fields spliced with it: a text that is not JSON,
  since \<open>+Inf\<close> is no JSON value.
\<close>

theorem Dataset_MarshalJSON_valid_counterexample:
  "payloadJSON
     \<lparr>as_Marshaler = None,
      as_Values = Some \<lparr>Xs = [Finite False 1 0], Ys = [Inf False], Rs = []\<rparr>\<rparr>
     ''%.2f'' ''%.2f''
     = Inr ''[{\"x\":1.00,\"y\":+Inf}]'' \<and>
   Dataset_MarshalJSON go_encoders initial_vars
     (zero_Dataset\<lparr>Dataset.Data :=
        \<lparr>as_Marshaler = None,
         as_Values = Some \<lparr>Xs = [Finite False 1 0], Ys = [Inf False], Rs = []\<rparr>\<rparr>\<rparr>)
     = Inr ''{\"borderWidth\":0,\"lineTension\":0,\"pointBorderWidth\":0,\"pointRadius\":0,\"pointHitRadius\":0,\"pointHoverRadius\":0,\"pointHoverBorderWidth\":0,\"data\":[{\"x\":1.00,\"y\":+Inf}]}'' \<and>
   \<not> json_value ''{\"borderWidth\":0,\"lineTension\":0,\"pointBorderWidth\":0,\"pointRadius\":0,\"pointHitRadius\":0,\"pointHoverRadius\":0,\"pointHoverBorderWidth\":0,\"data\":[{\"x\":1.00,\"y\":+Inf}]}''"
proof (intro conjI)
  show "payloadJSON
     \<lparr>as_Marshaler = None,
      as_Values = Some \<lparr>Xs = [Finite False 1 0], Ys = [Inf False], Rs = []\<rparr>\<rparr>
     ''%.2f'' ''%.2f''
     = Inr ''[{\"x\":1.00,\"y\":+Inf}]''"
    by (simp add: payloadJSON_def marshalValuesJSON_def format_defs)
  show "Dataset_MarshalJSON go_encoders initial_vars
     (zero_Dataset\<lparr>Dataset.Data :=
        \<lparr>as_Marshaler = None,
         as_Values = Some \<lparr>Xs = [Finite False 1 0], Ys = [Inf False], Rs = []\<rparr>\<rparr>\<rparr>)
     = Inr ''{\"borderWidth\":0,\"lineTension\":0,\"pointBorderWidth\":0,\"pointRadius\":0,\"pointHitRadius\":0,\"pointHoverRadius\":0,\"pointHoverBorderWidth\":0,\"data\":[{\"x\":1.00,\"y\":+Inf}]}''"
    by (simp add: dataset_defs marshalValuesJSON_def format_defs)
  show "\<not> json_value ''{\"borderWidth\":0,\"lineTension\":0,\"pointBorderWidth\":0,\"pointRadius\":0,\"pointHitRadius\":0,\"pointHoverRadius\":0,\"pointHoverBorderWidth\":0,\"data\":[{\"x\":1.00,\"y\":+Inf}]}''"
  proof
    assume "json_value ''{\"borderWidth\":0,\"lineTension\":0,\"pointBorderWidth\":0,\"pointRadius\":0,\"pointHitRadius\":0,\"pointHoverRadius\":0,\"pointHoverBorderWidth\":0,\"data\":[{\"x\":1.00,\"y\":+Inf}]}''"
    from json_value_outside [OF this] show False
      by (simp add: plain_char_def is_numchar_def is_digit_def is_ws_def)
  qed
qed

text \<open>
  C4, amended: whenever the dataset encoder returns an output, the payload's own
  encoding is a JSON value, and the leaves of the styling fields are printed as JSON
  values, the output is valid JSON: an object whose members are those of the styling
  fields, none of them keyed \<open>data\<close>, followed by one member \<open>data\<close> whose value is,
  byte for byte, the payload's encoding.
\<close>

theorem Dataset_MarshalJSON_valid:
  assumes "Dataset_MarshalJSON L g d = Inr out"
    and "payloadJSON (Dataset.Data d) (fst (float_formats g d)) (snd (float_formats g d))
           = Inr o_bytes"
    and "json_value o_bytes"
    and "leaves_valid L d"
  shows "\<exists>kvs. json_object out (kvs @ [(''data'', o_bytes)]) \<and> ''data'' \<notin> fst ` set kvs \<and>
           json_value out"
  using assms by (rule splice_valid)

theorem Dataset_MarshalJSON_valid_witness:
  "\<exists>kvs. json_object
      ''{\"borderWidth\":0,\"lineTension\":0,\"pointBorderWidth\":0,\"pointRadius\":0,\"pointHitRadius\":0,\"pointHoverRadius\":0,\"pointHoverBorderWidth\":0,\"data\":[{\"x\":1.00,\"y\":3.00},{\"x\":2.00,\"y\": null }]}''
      (kvs @ [(''data'', ''[{\"x\":1.00,\"y\":3.00},{\"x\":2.00,\"y\": null }]'')]) \<and>
     ''data'' \<notin> fst ` set kvs \<and>
     json_value
      ''{\"borderWidth\":0,\"lineTension\":0,\"pointBorderWidth\":0,\"pointRadius\":0,\"pointHitRadius\":0,\"pointHoverRadius\":0,\"pointHoverBorderWidth\":0,\"data\":[{\"x\":1.00,\"y\":3.00},{\"x\":2.00,\"y\": null }]}''"
proof -
  let ?d = "zero_Dataset\<lparr>Dataset.Data :=
        \<lparr>as_Marshaler = None,
         as_Values = Some \<lparr>Xs = [Finite False 1 0, Finite False 2 0],
                             Ys = [Finite False 3 0, NaN], Rs = []\<rparr>\<rparr>\<rparr>"
  have out: "Dataset_MarshalJSON go_encoders initial_vars ?d
     = Inr ''{\"borderWidth\":0,\"lineTension\":0,\"pointBorderWidth\":0,\"pointRadius\":0,\"pointHitRadius\":0,\"pointHoverRadius\":0,\"pointHoverBorderWidth\":0,\"data\":[{\"x\":1.00,\"y\":3.00},{\"x\":2.00,\"y\": null }]}''"
    by (simp add: dataset_defs marshalValuesJSON_def format_defs)
  have payload: "payloadJSON (Dataset.Data ?d) (fst (float_formats initial_vars ?d))
      (snd (float_formats initial_vars ?d))
     = Inr ''[{\"x\":1.00,\"y\":3.00},{\"x\":2.00,\"y\": null }]''"
    by (simp add: dataset_defs marshalValuesJSON_def format_defs)
  have "parses ''[{\"x\":1.00,\"y\":3.00},{\"x\":2.00,\"y\": null }]''"
    by (simp add: parse_defs json_defs)
  then have o: "json_value ''[{\"x\":1.00,\"y\":3.00},{\"x\":2.00,\"y\": null }]''"
    by (rule parses_sound)
  have "json_value ''0''" by (rule Number) (simp add: json_defs)
  then have leaves: "leaves_valid go_encoders ?d"
    by (simp add: leaves_valid_def float_leaves_def string_leaves_def rgba_leaves_def
        zero_Dataset_def zero_def go_encoders_def go_floatEncoder_def show_nat_small)
  from Dataset_MarshalJSON_valid [OF out payload o leaves] show ?thesis .
qed

end
